theory Spec2Isabelle
  imports Complex_Main
begin

section \<open>Q\&A matching: model training and evaluation (Part 3 notebook)\<close>

text \<open>
  The notebook \<^verbatim>\<open>notebooks/Part_3_Model_Training_and_Evaluation.ipynb\<close> scores test
  questions against a fixed list of answer classes with three classifiers, averages the
  three score matrices and ranks the true class of every test question.

  Conventions of the embedding:
  \<^item> a numpy \<^verbatim>\<open>float64\<close> is a \<^typ>\<open>real\<close>: arithmetic is exact, there is no NaN, no
    infinity and no rounding error, except in the Top-3 percentage, whose quotient and
    rounding are those of float64;
  \<^item> a two-dimensional array is the list of its rows; an array with no rows stands for
    every shape \<open>(0, k)\<close>;
  \<^item> a Python exception is a value \<open>Inl e\<close> of the result type;
  \<^item> the library routines the notebook calls (\<^verbatim>\<open>np.argsort\<close>, the scikit-learn
    classifier, the state of \<^verbatim>\<open>np.random\<close>) are arguments of the functions that use
    them.
\<close>

subsection \<open>Data\<close>

type_synonym matrix = "real list list"

datatype error = ValueError | IndexError | ZeroDivisionError | OverflowError

text \<open>
  A row of the test frame before ranking carries the answer class of the question; the
  call of \<^verbatim>\<open>rank\<close> adds the columns \<^verbatim>\<open>SortedAnswers\<close> and \<^verbatim>\<open>Rank\<close>.
\<close>

record question =
  AnswerId :: int

record ranked_question = question +
  SortedAnswers :: "int list"
  Rank :: int

text \<open>A row of a frame as the feature extractor reads it, with its list of tokens.\<close>

record token_question = question +
  Tokens :: "string list"

definition bindE :: "error + 'a \<Rightarrow> ('a \<Rightarrow> error + 'b) \<Rightarrow> error + 'b" where
  "bindE r f = (case r of Inl e \<Rightarrow> Inl e | Inr x \<Rightarrow> f x)"

subsection \<open>Ranking evaluator\<close>

text \<open>
  \<^verbatim>\<open>np.argsort\<close> returns, for one row of keys, a permutation of the positions that lists
  the keys in ascending order. The order among equal keys depends on the sorting
  algorithm numpy picks, so the sorter is an argument \<open>srt\<close>, constrained by
  \<open>is_argsort\<close>; \<open>argsort_stable\<close> is one such sorter (an insertion sort, which keeps
  equal keys in their original order).
\<close>

definition is_argsort :: "real list \<Rightarrow> nat list \<Rightarrow> bool" where
  "is_argsort xs p \<longleftrightarrow>
     distinct p \<and> set p = {0..<length xs} \<and> sorted (map (\<lambda>j. xs ! j) p)"

definition argsort_stable :: "real list \<Rightarrow> nat list" where
  "argsort_stable xs = sort_key (\<lambda>j. xs ! j) [0..<length xs]"

text \<open>Fancy indexing \<^verbatim>\<open>a[idx]\<close>: an index beyond the array raises IndexError.\<close>

definition take_idx :: "'a list \<Rightarrow> nat list \<Rightarrow> error + 'a list" where
  "take_idx a idx =
     (if list_all (\<lambda>j. j < length a) idx then Inr (map (\<lambda>j. a ! j) idx)
      else Inl IndexError)"

text \<open>
  \<^verbatim>\<open>np.array(uniqueAnswerId)[np.argsort(-scores, axis=1)]\<close>, row by row.
\<close>

fun sorted_answers ::
  "(real list \<Rightarrow> nat list) \<Rightarrow> int list \<Rightarrow> matrix \<Rightarrow> error + int list list" where
  "sorted_answers srt uniqueAnswerId [] = Inr []"
| "sorted_answers srt uniqueAnswerId (row # rows) =
     bindE (take_idx uniqueAnswerId (srt (map uminus row))) (\<lambda>s.
     bindE (sorted_answers srt uniqueAnswerId rows) (\<lambda>ss. Inr (s # ss)))"

text \<open>
  \<^verbatim>\<open>np.where(sorted == answer)[0][0]\<close>: the first position that holds the answer; the
  selection of element 0 of an empty match raises IndexError.
\<close>

definition first_match :: "int list \<Rightarrow> int \<Rightarrow> error + nat" where
  "first_match s a =
     (case filter (\<lambda>j. s ! j = a) [0..<length s] of
        [] \<Rightarrow> Inl IndexError
      | j # _ \<Rightarrow> Inr j)"

text \<open>The loop of \<^verbatim>\<open>rank\<close> over the rows of the frame, building \<^verbatim>\<open>rankList\<close>.\<close>

fun rank_loop :: "(question \<times> int list) list \<Rightarrow> error + int list" where
  "rank_loop [] = Inr []"
| "rank_loop ((q, s) # rest) =
     bindE (first_match s (AnswerId q)) (\<lambda>j.
     bindE (rank_loop rest) (\<lambda>rankList. Inr ((int j + 1) # rankList)))"

definition add_columns :: "question \<Rightarrow> int list \<times> int \<Rightarrow> ranked_question" where
  "add_columns q sr =
     \<lparr>AnswerId = AnswerId q, SortedAnswers = fst sr, Rank = snd sr\<rparr>"

text \<open>
  \<^verbatim>\<open>rank(frame, scores, uniqueAnswerId)\<close>. Assigning a column whose length differs from
  the length of the frame raises ValueError.
\<close>

definition rank ::
  "(real list \<Rightarrow> nat list) \<Rightarrow> question list \<Rightarrow> matrix \<Rightarrow> int list
     \<Rightarrow> error + ranked_question list" where
  "rank srt frame scores uniqueAnswerId =
     bindE (sorted_answers srt uniqueAnswerId scores) (\<lambda>sa.
     if length sa \<noteq> length frame then Inl ValueError
     else bindE (rank_loop (zip frame sa)) (\<lambda>rankList.
          Inr (map2 add_columns frame (zip sa rankList))))"

subsection \<open>Metrics\<close>

text \<open>
  \<^verbatim>\<open>testQ['Rank'].mean()\<close>: the mean of an empty column is NaN, here \<open>None\<close>.
\<close>

definition series_mean :: "int list \<Rightarrow> real option" where
  "series_mean xs =
     (if xs = [] then None else Some (real_of_int (sum_list xs) / real (length xs)))"

text \<open>\<^verbatim>\<open>AR = np.floor(testQ['Rank'].mean())\<close>; the floor of NaN is NaN.\<close>

definition AR :: "ranked_question list \<Rightarrow> real option" where
  "AR testQ = map_option (\<lambda>m. real_of_int \<lfloor>m\<rfloor>) (series_mean (map Rank testQ))"

text \<open>
  The Top-3 percentage is the one place where the notebook prints a rounded decimal, and
  there the rounding of float64 decides the last digit, so this quotient is not idealised.
  \<open>float_round k n\<close> is the float64 nearest to the fraction \<open>k / n\<close>: the fraction is scaled
  to a significand of 53 bits (fewer below the smallest normal number) and rounded to the
  nearest integer, an exact tie to the even one. \<open>ilog2\<close> is the position of the leading
  bit, \<open>float_exponent\<close> the binary exponent of the fraction.
\<close>

fun ilog2 :: "nat \<Rightarrow> nat" where
  "ilog2 n = (if n < 2 then 0 else Suc (ilog2 (n div 2)))"

definition round_half_even :: "real \<Rightarrow> int" where
  "round_half_even x =
     (let f = \<lfloor>x\<rfloor>; d = x - real_of_int f
      in if d < 1/2 then f
         else if 1/2 < d then f + 1
         else if even f then f else f + 1)"

definition float_exponent :: "nat \<Rightarrow> nat \<Rightarrow> int" where
  "float_exponent k n =
     (let d = int (ilog2 k) - int (ilog2 n)
      in if 2 powi d \<le> real k / real n then d else d - 1)"

definition float_round :: "nat \<Rightarrow> nat \<Rightarrow> real" where
  "float_round k n =
     (if k = 0 then 0
      else let e = max (float_exponent k n) (- 1022); ulp = 2 powi (e - 52)
           in real_of_int (round_half_even (real k / real n / ulp)) * ulp)"

text \<open>
  \<^verbatim>\<open>a / b\<close> on two Python integers that are not negative: the quotient, correctly rounded
  to float64; a zero divisor raises ZeroDivisionError and a quotient beyond the range of
  float64 raises OverflowError.
\<close>

definition true_div :: "nat \<Rightarrow> nat \<Rightarrow> error + real" where
  "true_div a b =
     (if b = 0 then Inl ZeroDivisionError
      else if 2 powi 1024 \<le> float_round a b then Inl OverflowError
      else Inr (float_round a b))"

text \<open>
  Python's \<^verbatim>\<open>round(x, ndigits)\<close> on a float: the exact value of \<open>x\<close> is rounded to the nearest
  multiple \<open>m / 10\<^sup>n\<close>, an exact tie to the even \<open>m\<close>, and the result is the float64 nearest
  to that decimal. (For the few digits asked for here; the shortcuts of the interpreter
  for several hundred digits are left out.)
\<close>

definition py_round :: "real \<Rightarrow> nat \<Rightarrow> real" where
  "py_round x ndigits =
     (let m = round_half_even (x * 10 ^ ndigits)
      in if m < 0 then - float_round (nat (- m)) (10 ^ ndigits)
         else float_round (nat m) (10 ^ ndigits))"

text \<open>
  \<^verbatim>\<open>top3 = round(len(testQ.query('Rank <= 3'))/len(testQ), 3)\<close>; the division raises
  ZeroDivisionError on an empty frame.
\<close>

definition top3 :: "ranked_question list \<Rightarrow> error + real" where
  "top3 testQ =
     bindE (true_div (length (filter (\<lambda>q. Rank q \<le> 3) testQ)) (length testQ))
       (\<lambda>quotient. Inr (py_round quotient 3))"

subsection \<open>Array helpers\<close>

text \<open>\<^verbatim>\<open>a.shape[1]\<close>, the number of columns.\<close>

definition shape1 :: "'a list list \<Rightarrow> nat" where
  "shape1 M = (case M of [] \<Rightarrow> 0 | row # _ \<Rightarrow> length row)"

text \<open>\<^verbatim>\<open>M[:, i]\<close>: column \<open>i\<close>; a column beyond the array raises IndexError.\<close>

definition column :: "'a list list \<Rightarrow> nat \<Rightarrow> error + 'a list" where
  "column M i =
     (if list_all (\<lambda>row. i < length row) M then Inr (map (\<lambda>row. row ! i) M)
      else Inl IndexError)"

fun mapE :: "('a \<Rightarrow> error + 'b) \<Rightarrow> 'a list \<Rightarrow> error + 'b list" where
  "mapE f [] = Inr []"
| "mapE f (x # xs) = bindE (f x) (\<lambda>y. bindE (mapE f xs) (\<lambda>ys. Inr (y # ys)))"

text \<open>
  The product \<^verbatim>\<open>row * w\<close> of two one-dimensional arrays: elementwise when the lengths
  agree; an array of length one is broadcast; any other pair of lengths raises ValueError.
\<close>

definition bmul :: "real list \<Rightarrow> real list \<Rightarrow> error + real list" where
  "bmul row w =
     (if length row = length w then Inr (map2 (*) row w)
      else if length w = 1 then Inr (map (\<lambda>x. x * hd w) row)
      else if length row = 1 then Inr (map (\<lambda>y. hd row * y) w)
      else Inl ValueError)"

text \<open>\<^verbatim>\<open>X * w\<close> for a matrix \<open>X\<close> and a vector \<open>w\<close>: every row is multiplied by \<open>w\<close>.\<close>

definition mul_rows :: "matrix \<Rightarrow> real list \<Rightarrow> error + matrix" where
  "mul_rows X w = mapE (\<lambda>row. bmul row w) X"

text \<open>\<^verbatim>\<open>np.dot(A, B)\<close>: the inner dimensions must agree.\<close>

definition np_dot :: "matrix \<Rightarrow> matrix \<Rightarrow> error + matrix" where
  "np_dot A B =
     (if list_all (\<lambda>row. length row = length B) A
      then Inr (map (\<lambda>row. map (\<lambda>col. sum_list (map2 (*) row col)) (transpose B)) A)
      else Inl ValueError)"

text \<open>\<^verbatim>\<open>np.where(ys == v)[0]\<close>: the positions that hold \<open>v\<close>, ascending.\<close>

definition where_eq :: "int list \<Rightarrow> int \<Rightarrow> nat list" where
  "where_eq ys v = filter (\<lambda>j. ys ! j = v) [0..<length ys]"

text \<open>\<^verbatim>\<open>np.unique\<close>: the distinct values in ascending order.\<close>

definition np_unique :: "int list \<Rightarrow> int list" where
  "np_unique xs = sort (remdups xs)"

text \<open>
  \<^verbatim>\<open>pd.get_dummies(labels)\<close>: one indicator column per distinct label, the columns in
  ascending order of the labels. The frame is kept as the list of its columns.
\<close>

definition get_dummies :: "int list \<Rightarrow> int list list" where
  "get_dummies labels =
     map (\<lambda>l. map (\<lambda>x. if x = l then 1 else 0) labels) (sort (remdups labels))"

text \<open>\<^verbatim>\<open>dummyLabels.iloc[:, i]\<close>.\<close>

definition iloc_col :: "int list list \<Rightarrow> nat \<Rightarrow> error + int list" where
  "iloc_col cols i = (if i < length cols then Inr (cols ! i) else Inl IndexError)"

text \<open>
  Modelled from the spec: \<^verbatim>\<open>softmax\<close> of \<^verbatim>\<open>modules/feature_extractor.py\<close>, whose source is
  not part of the notebook. The spec asks for a normalisation of every row (one question)
  to sum 1, computed stably by subtracting the maximum of the row before exponentiating.
\<close>

definition softmax_row :: "real list \<Rightarrow> real list" where
  "softmax_row xs =
     (if xs = [] then []
      else let m = Max (set xs); es = map (\<lambda>x. exp (x - m)) xs
           in map (\<lambda>e. e / sum_list es) es)"

definition softmax :: "matrix \<Rightarrow> matrix" where
  "softmax M = map softmax_row M"

subsection \<open>The generator of \<^verbatim>\<open>np.random\<close>\<close>

text \<open>
  The notebook draws from the global generator of numpy and never seeds it. Its state is
  an explicit argument: the stream \<open>g\<close> of the raw numbers it will produce next.
  \<^verbatim>\<open>np.random.choice(a, size)\<close> draws \<open>size\<close> (here \<open>sz\<close>) positions of \<open>a\<close> independently (the default
  is \<^verbatim>\<open>replace=True\<close>), returns the elements there and advances the generator. An empty
  population and a negative size raise ValueError (later versions of numpy accept an empty
  population when nothing is drawn; no property below depends on that case).
\<close>

type_synonym rng = "nat \<Rightarrow> nat"

definition random_choice :: "rng \<Rightarrow> 'a list \<Rightarrow> int \<Rightarrow> error + ('a list \<times> rng)" where
  "random_choice g a sz =
     (if a = [] then Inl ValueError
      else if sz < 0 then Inl ValueError
      else Inr (map (\<lambda>k. a ! (g k mod length a)) [0..<nat sz],
                \<lambda>k. g (k + nat sz)))"

subsection \<open>One-versus-rest classifier on Naive Bayes scores\<close>

text \<open>
  The scikit-learn estimator passed as \<^verbatim>\<open>clf\<close>. \<open>fit\<close> returns the fitted model;
  \<open>decision_function\<close> is \<open>None\<close> for an estimator without that attribute (a random
  forest); both prediction methods score one sample (a row of the test matrix) at a time,
  and \<open>predict_proba\<close> returns one probability per class seen in training.
\<close>

record 'm classifier =
  fit :: "matrix \<Rightarrow> int list \<Rightarrow> 'm"
  decision_function :: "('m \<Rightarrow> real list \<Rightarrow> real) option"
  predict_proba :: "'m \<Rightarrow> real list \<Rightarrow> real list"

text \<open>
  The draw of the negative examples:
  \<^verbatim>\<open>np.random.choice(np.where(Y_train_all == 0)[0], ratio*len(posIdx))\<close>.
\<close>

definition neg_sample :: "int \<Rightarrow> rng \<Rightarrow> int list \<Rightarrow> error + (nat list \<times> rng)" where
  "neg_sample ratio g Y_train_all =
     random_choice g (where_eq Y_train_all 0)
       (ratio * int (length (where_eq Y_train_all 1)))"

text \<open>The training set of one class, with or without sample selection.\<close>

definition select_train ::
  "int option \<Rightarrow> rng \<Rightarrow> matrix \<Rightarrow> int list \<Rightarrow> error + ((matrix \<times> int list) \<times> rng)" where
  "select_train ratio g X_train_all Y_train_all =
     (case ratio of
        Some r \<Rightarrow>
          bindE (neg_sample r g Y_train_all) (\<lambda>(negIdx, g').
          let allIdx = where_eq Y_train_all 1 @ negIdx in
          bindE (take_idx X_train_all allIdx) (\<lambda>X_train.
          bindE (take_idx Y_train_all allIdx) (\<lambda>Y_train.
          Inr ((X_train, Y_train), g'))))
      | None \<Rightarrow> Inr ((X_train_all, Y_train_all), g))"

text \<open>
  The scores of the test rows: \<^verbatim>\<open>clf.decision_function(X_test)\<close> when the estimator has
  one, else \<^verbatim>\<open>clf.predict_proba(X_test)[:, 1]\<close>.
\<close>

definition test_scores :: "'m classifier \<Rightarrow> 'm \<Rightarrow> matrix \<Rightarrow> error + real list" where
  "test_scores clf m X_test =
     (case decision_function clf of
        Some d \<Rightarrow> Inr (map (d m) X_test)
      | None \<Rightarrow> column (map (predict_proba clf m) X_test) 1)"

text \<open>
  The assignment \<^verbatim>\<open>Y_test_prob[:, i] = v\<close> into a column of \<open>numTest\<close> entries.
\<close>

definition assign_col :: "nat \<Rightarrow> real list \<Rightarrow> error + real list" where
  "assign_col numTest v =
     (if length v = numTest then Inr v
      else if length v = 1 then Inr (replicate numTest (hd v))
      else Inl ValueError)"

text \<open>The body of the loop for class \<open>i\<close>: it returns column \<open>i\<close> of \<^verbatim>\<open>Y_test_prob\<close>.\<close>

definition ovr_column ::
  "'m classifier \<Rightarrow> int option \<Rightarrow> matrix \<Rightarrow> matrix \<Rightarrow> matrix \<Rightarrow> int list list \<Rightarrow> nat
     \<Rightarrow> nat \<Rightarrow> rng \<Rightarrow> error + (real list \<times> rng)" where
  "ovr_column clf ratio x_wTrain x_wTest NBWeights dummyLabels numTest i g =
     bindE (column NBWeights i) (\<lambda>w.
     bindE (mul_rows (transpose x_wTrain) w) (\<lambda>X_train_all.
     bindE (iloc_col dummyLabels i) (\<lambda>Y_train_all.
     bindE (mul_rows (transpose x_wTest) w) (\<lambda>X_test.
     bindE (select_train ratio g X_train_all Y_train_all) (\<lambda>((X_train, Y_train), g').
     bindE (test_scores clf (fit clf X_train Y_train) X_test) (\<lambda>v.
     bindE (assign_col numTest v) (\<lambda>col. Inr (col, g'))))))))"

fun ovr_loop ::
  "'m classifier \<Rightarrow> int option \<Rightarrow> matrix \<Rightarrow> matrix \<Rightarrow> matrix \<Rightarrow> int list list \<Rightarrow> nat
     \<Rightarrow> nat list \<Rightarrow> rng \<Rightarrow> error + (real list list \<times> rng)" where
  "ovr_loop clf ratio x_wTrain x_wTest NBWeights dummyLabels numTest [] g = Inr ([], g)"
| "ovr_loop clf ratio x_wTrain x_wTest NBWeights dummyLabels numTest (i # rest) g =
     bindE (ovr_column clf ratio x_wTrain x_wTest NBWeights dummyLabels numTest i g)
       (\<lambda>(col, g').
     bindE (ovr_loop clf ratio x_wTrain x_wTest NBWeights dummyLabels numTest rest g')
       (\<lambda>(cols, g''). Inr (col # cols, g'')))"

text \<open>
  \<^verbatim>\<open>ovrClassifier(trainLabels, x_wTrain, x_wTest, NBWeights, clf, ratio)\<close>, with the state
  of the generator as first argument and in the result. The feature matrices have one row
  per token and one column per question.
\<close>

definition ovrClassifier ::
  "rng \<Rightarrow> int list \<Rightarrow> matrix \<Rightarrow> matrix \<Rightarrow> matrix \<Rightarrow> 'm classifier \<Rightarrow> int option
     \<Rightarrow> error + (matrix \<times> rng)" where
  "ovrClassifier g trainLabels x_wTrain x_wTest NBWeights clf ratio =
     (let uniqueLabel = np_unique trainLabels;
          dummyLabels = get_dummies trainLabels;
          numTest = shape1 x_wTest
      in bindE (ovr_loop clf ratio x_wTrain x_wTest NBWeights dummyLabels numTest
                  [0..<length uniqueLabel] g) (\<lambda>(cols, g').
         Inr (softmax (map (\<lambda>q. map (\<lambda>col. col ! q) cols) [0..<numTest]), g')))"

subsection \<open>The cells of the notebook\<close>

text \<open>\<^verbatim>\<open>uniqueAnswerId = list(np.unique(trainQ['AnswerId']))\<close>\<close>

definition uniqueAnswerId :: "'a question_scheme list \<Rightarrow> int list" where
  "uniqueAnswerId trainQ = np_unique (map AnswerId trainQ)"

text \<open>
  The Naive Bayes scores,
  \<^verbatim>\<open>Y_test_prob1 = softmax(-beta_A + np.dot(x_wTest.T, NBWeights))\<close> with
  \<^verbatim>\<open>x_wTest = normalizeTF(testQ, token2IdHash)\<close>. \<^verbatim>\<open>normalizeTF\<close> belongs to
  \<^verbatim>\<open>modules/feature_extractor.py\<close>, which is not part of the notebook: it is an argument.
\<close>

definition beta_A :: real where
  "beta_A = 0"

definition Y_test_prob1 ::
  "('frame \<Rightarrow> 'hash \<Rightarrow> matrix) \<Rightarrow> 'frame \<Rightarrow> 'hash \<Rightarrow> matrix \<Rightarrow> error + matrix" where
  "Y_test_prob1 normalizeTF testQ token2IdHash NBWeights =
     (let x_wTest = normalizeTF testQ token2IdHash
      in bindE (np_dot (transpose x_wTest) NBWeights) (\<lambda>D.
         Inr (softmax (map (map (\<lambda>v. - beta_A + v)) D))))"

text \<open>
  Modelled from the spec: \<^verbatim>\<open>countMatrix(frame, vocabulary, groupColumn, groupKeys)\<close> of
  \<^verbatim>\<open>modules/feature_extractor.py\<close>, whose source is not part of the notebook, in its grouped
  form. The spec: a tokens by units matrix; with a group column the counts are aggregated
  per value of that column, in the order given by \<open>groupKeys\<close>; an entry of the class-token
  matrix is the total number of occurrences of the token in the questions of the class.
  The vocabulary is the list of its tokens, a token at the position of its id; the group
  column is given by its accessor.
\<close>

definition countMatrix ::
  "'a token_question_scheme list \<Rightarrow> string list \<Rightarrow> ('a token_question_scheme \<Rightarrow> int)
     \<Rightarrow> int list \<Rightarrow> matrix" where
  "countMatrix frame vocabulary groupColumn groupKeys =
     map (\<lambda>w. map (\<lambda>key. real (sum_list (map (\<lambda>q. count_list (Tokens q) w)
                                      (filter (\<lambda>q. groupColumn q = key) frame))))
                   groupKeys)
         vocabulary"

text \<open>
  Modelled from the spec: \<^verbatim>\<open>wordProbabilityInAnswer\<close> and \<^verbatim>\<open>wordProbabilityNotinAnswer\<close> of
  \<^verbatim>\<open>modules/feature_extractor.py\<close>, whose source is not part of the notebook. The spec: the
  smoothed probability of a token given a class, and given not the class, as tokens by
  classes matrices, with the global token weights and the smoothing parameter \<open>beta\<close>. The
  spec gives no formula, so the smoothing is an argument \<open>smooth\<close>: it is given the counts
  of all tokens in the class (for the second matrix: in all other classes), the token
  weights, \<open>beta\<close> and the id of the token.
\<close>

definition wordProbabilityInAnswer ::
  "(real list \<Rightarrow> real list \<Rightarrow> real \<Rightarrow> nat \<Rightarrow> real) \<Rightarrow> matrix \<Rightarrow> real list \<Rightarrow> real \<Rightarrow> matrix" where
  "wordProbabilityInAnswer smooth N_wA P_w beta =
     map (\<lambda>t. map (\<lambda>j. smooth (map (\<lambda>row. row ! j) N_wA) P_w beta t) [0..<shape1 N_wA])
         [0..<length N_wA]"

definition wordProbabilityNotinAnswer ::
  "(real list \<Rightarrow> real list \<Rightarrow> real \<Rightarrow> nat \<Rightarrow> real) \<Rightarrow> matrix \<Rightarrow> real list \<Rightarrow> real \<Rightarrow> matrix" where
  "wordProbabilityNotinAnswer smooth N_wA P_w beta =
     map (\<lambda>t. map (\<lambda>j. smooth (map (\<lambda>row. sum_list row - row ! j) N_wA) P_w beta t)
                   [0..<shape1 N_wA])
         [0..<length N_wA]"

text \<open>\<^verbatim>\<open>np.log(A / B)\<close> for two arrays of one shape, entry by entry.\<close>

definition np_log_ratio :: "matrix \<Rightarrow> matrix \<Rightarrow> error + matrix" where
  "np_log_ratio A B =
     (if map length A = map length B
      then Inr (map (\<lambda>(ra, rb). map (\<lambda>(a, b). ln (a / b)) (zip ra rb)) (zip A B))
      else Inl ValueError)"

text \<open>
  The Naive Bayes weights of the notebook, from the count matrix to \<^verbatim>\<open>NBWeights\<close>:
  \<^verbatim>\<open>N_wA = countMatrix(trainQ, token2IdHash, 'AnswerId', uniqueAnswerId)\<close>,
  \<^verbatim>\<open>P_w = featureWeights(N_wA, alpha)\<close>,
  \<^verbatim>\<open>P_wA = wordProbabilityInAnswer(N_wA, P_w, beta)\<close>,
  \<^verbatim>\<open>P_wNotA = wordProbabilityNotinAnswer(N_wA, P_w, beta)\<close>,
  \<^verbatim>\<open>NBWeights = np.log(P_wA / P_wNotA)\<close>, with \<^verbatim>\<open>alpha = beta = 0.0001\<close>. The vocabulary
  \<open>token2IdHash\<close> and \<^verbatim>\<open>featureWeights\<close> (also of the absent module) are arguments.
\<close>

definition NBWeights_cell ::
  "(matrix \<Rightarrow> real \<Rightarrow> real list) \<Rightarrow> (real list \<Rightarrow> real list \<Rightarrow> real \<Rightarrow> nat \<Rightarrow> real)
     \<Rightarrow> (real list \<Rightarrow> real list \<Rightarrow> real \<Rightarrow> nat \<Rightarrow> real)
     \<Rightarrow> 'a token_question_scheme list \<Rightarrow> string list \<Rightarrow> error + matrix" where
  "NBWeights_cell featureWeights smoothIn smoothNotIn trainQ token2IdHash =
     (let N_wA = countMatrix trainQ token2IdHash AnswerId (uniqueAnswerId trainQ);
          alpha = 1 / 10000;
          P_w = featureWeights N_wA alpha;
          beta = 1 / 10000;
          P_wA = wordProbabilityInAnswer smoothIn N_wA P_w beta;
          P_wNotA = wordProbabilityNotinAnswer smoothNotIn N_wA P_w beta
      in np_log_ratio P_wA P_wNotA)"

text \<open>
  The support vector machine of scikit-learn, \<^verbatim>\<open>svm.LinearSVC(multi_class='ovr', ...)\<close>, as
  its documentation has it. \<^verbatim>\<open>fit(X, y)\<close> keeps \<^verbatim>\<open>classes_ = np.unique(y)\<close> and trains one
  two-class problem per class, the samples of the class against all others;
  \<^verbatim>\<open>decision_function\<close> returns for three or more classes a matrix with one column per
  class in the order of \<^verbatim>\<open>classes_\<close>, and for two classes one score per sample, that of
  \<^verbatim>\<open>classes_[1]\<close>. Labels of a single class, a label column of another length than the
  sample matrix and test samples of another width are refused with ValueError. The
  two-class trainer (which is told the position of its problem, since the problems share
  one seeded generator) and its score are the fields of \<open>linear_svc\<close>.
\<close>

record 'm linear_svc =
  fit_binary :: "nat \<Rightarrow> matrix \<Rightarrow> bool list \<Rightarrow> 'm"
  score :: "'m \<Rightarrow> real list \<Rightarrow> real"

datatype ndarray = Vec "real list" | Mat matrix

definition svc_decision_function ::
  "'m linear_svc \<Rightarrow> matrix \<Rightarrow> int list \<Rightarrow> matrix \<Rightarrow> error + ndarray" where
  "svc_decision_function svc X_train Y_train X_test =
     (let classes = np_unique Y_train
      in if length X_train \<noteq> length Y_train \<or> length classes < 2
            \<or> (X_test \<noteq> [] \<and> shape1 X_test \<noteq> shape1 X_train)
         then Inl ValueError
         else if length classes = 2
         then Inr (Vec (map (score svc (fit_binary svc 0 X_train (map (\<lambda>y. y = classes ! 1) Y_train)))
                            X_test))
         else Inr (Mat (map (\<lambda>x. map (\<lambda>j. score svc
                                         (fit_binary svc j X_train (map (\<lambda>y. y = classes ! j) Y_train)) x)
                                   [0..<length classes])
                            X_test)))"

text \<open>
  The support vector machine scores of the notebook:
  \<^verbatim>\<open>X_train, Y_train = tfidfTrain.T, np.array(trainQ['AnswerId'])\<close>, \<^verbatim>\<open>clf.fit(X_train, Y_train)\<close>,
  \<^verbatim>\<open>Y_test_prob2 = softmax(clf.decision_function(tfidfTest.T))\<close>. What the absent
  \<^verbatim>\<open>softmax\<close> does with the one-dimensional array of the two-class case is the argument
  \<open>softmax1\<close>.
\<close>

definition Y_test_prob2 ::
  "(real list \<Rightarrow> error + matrix) \<Rightarrow> 'm linear_svc \<Rightarrow> matrix \<Rightarrow> 'a question_scheme list \<Rightarrow> matrix
     \<Rightarrow> error + matrix" where
  "Y_test_prob2 softmax1 svc tfidfTrain trainQ tfidfTest =
     bindE (svc_decision_function svc (transpose tfidfTrain) (map AnswerId trainQ)
              (transpose tfidfTest)) (\<lambda>d.
     case d of Mat D \<Rightarrow> Inr (softmax D) | Vec v \<Rightarrow> softmax1 v)"

text \<open>
  The random forest scores,
  \<^verbatim>\<open>Y_test_prob3 = ovrClassifier(trainQ["AnswerId"], x_wTrain, x_wTest, NBWeights, clf, ratio=3)\<close>;
  \<open>clf\<close> is the forest built with \<^verbatim>\<open>random_state=1\<close>, \<open>x_wTrain\<close> and \<open>x_wTest\<close> are the
  matrices \<^verbatim>\<open>normalizeTF\<close> returns for the two frames.
\<close>

definition Y_test_prob3 ::
  "rng \<Rightarrow> 'a question_scheme list \<Rightarrow> matrix \<Rightarrow> matrix \<Rightarrow> matrix \<Rightarrow> 'm classifier
     \<Rightarrow> error + (matrix \<times> rng)" where
  "Y_test_prob3 g trainQ x_wTrain x_wTest NBWeights clf =
     ovrClassifier g (map AnswerId trainQ) x_wTrain x_wTest NBWeights clf (Some 3)"

text \<open>
  The ensemble,
  \<^verbatim>\<open>Y_test_prob_aggr = np.mean([Y_test_prob1, Y_test_prob2, Y_test_prob3], axis=0)\<close>: the
  three matrices are stacked, which needs equal shapes, and averaged entry by entry.
\<close>

definition Y_test_prob_aggr :: "matrix \<Rightarrow> matrix \<Rightarrow> matrix \<Rightarrow> error + matrix" where
  "Y_test_prob_aggr P1 P2 P3 =
     (if map length P1 = map length P2 \<and> map length P2 = map length P3
      then Inr (map (\<lambda>(r1, r2, r3). map (\<lambda>(a, b, c). (a + b + c) / 3) (zip r1 (zip r2 r3)))
                  (zip P1 (zip P2 P3)))
      else Inl ValueError)"

section \<open>Properties\<close>

subsection \<open>Auxiliary facts\<close>

lemma bindE_simps [simp]: "bindE (Inl e) f = Inl e" "bindE (Inr x) f = f x"
  by (simp_all add: bindE_def)

lemma bindE_Inr_iff: "bindE r f = Inr y \<longleftrightarrow> (\<exists>x. r = Inr x \<and> f x = Inr y)"
  by (cases r) simp_all

lemma first_match_Inr:
  assumes "first_match s a = Inr j"
  shows "j < length s \<and> s ! j = a \<and> (\<forall>k<j. s ! k \<noteq> a)"
proof -
  let ?P = "\<lambda>j. s ! j = a"
  from assms obtain js where f: "filter ?P [0..<length s] = j # js"
    by (auto simp: first_match_def split: list.splits)
  then have "j \<in> set (filter ?P [0..<length s])" by simp
  then have 1: "j < length s" "s ! j = a" by auto
  have "sorted (filter ?P [0..<length s])" by (simp add: sorted_wrt_filter)
  with f have le: "\<forall>k\<in>set js. j \<le> k" by simp
  have "s ! k \<noteq> a" if "k < j" for k
  proof
    assume "s ! k = a"
    with that 1 have "k \<in> set (filter ?P [0..<length s])" by simp
    with f have "k = j \<or> k \<in> set js" by simp
    with le that show False by auto
  qed
  with 1 show ?thesis by blast
qed

lemma first_match_member: "a \<in> set s \<Longrightarrow> \<exists>j. first_match s a = Inr j"
  by (auto simp: first_match_def in_set_conv_nth filter_empty_conv split: list.splits)

lemma first_match_absent:
  assumes "a \<notin> set s"
  shows "first_match s a = Inl IndexError"
proof -
  have "filter (\<lambda>j. s ! j = a) [0..<length s] = []"
    using assms by (auto simp: filter_empty_conv)
  then show ?thesis by (simp add: first_match_def)
qed

lemma first_match_Inl: "first_match s a = Inl e \<Longrightarrow> a \<notin> set s \<and> e = IndexError"
  using first_match_member [of a s] by (auto simp: first_match_def split: list.splits)

lemma round_half_even_bound: "\<bar>real_of_int (round_half_even x) - x\<bar> \<le> 1/2"
  unfolding round_half_even_def Let_def by (auto; linarith)

lemma floor_mean_div: "\<lfloor>real_of_int s / real n\<rfloor> = s div int n"
  by (metis floor_divide_of_int_eq of_int_of_nat_eq)

lemma argsort_stable_ok: "is_argsort xs (argsort_stable xs)"
  by (simp add: is_argsort_def argsort_stable_def)

declare ilog2.simps [simp del]

lemma round_half_even_of_int: "round_half_even (real_of_int m) = m"
  by (simp add: round_half_even_def)

lemma ilog2_mono: "k \<le> n \<Longrightarrow> ilog2 k \<le> ilog2 n"
proof (induction n arbitrary: k rule: ilog2.induct)
  case (1 n)
  show ?case
  proof (cases "k < 2")
    case True
    then show ?thesis by (subst ilog2.simps [of k]) simp
  next
    case False
    with "1.prems" have n: "\<not> n < 2" by simp
    from "1.prems" have "k div 2 \<le> n div 2" by (rule div_le_mono)
    from "1.IH" [OF n this] have "ilog2 (k div 2) \<le> ilog2 (n div 2)" .
    with False n show ?thesis
      by (subst ilog2.simps [of k], subst ilog2.simps [of n]) simp
  qed
qed

lemma ilog2_bounds: "0 < n \<Longrightarrow> 2 ^ ilog2 n \<le> n \<and> n < 2 ^ Suc (ilog2 n)"
proof (induction n rule: ilog2.induct)
  case (1 n)
  show ?case
  proof (cases "n < 2")
    case True
    with "1.prems" have "n = 1" by simp
    then show ?thesis by (subst (1 2) ilog2.simps) simp
  next
    case False
    then have "0 < n div 2" by simp
    from "1.IH" [OF False this]
    have "2 ^ ilog2 (n div 2) \<le> n div 2" "n div 2 < 2 ^ Suc (ilog2 (n div 2))" by simp_all
    then have "2 * 2 ^ ilog2 (n div 2) \<le> n" "n < 2 * 2 ^ Suc (ilog2 (n div 2))" by linarith+
    with False show ?thesis by (subst (1 2) ilog2.simps) simp
  qed
qed

lemma float_exponent_le:
  assumes "0 < k" "k < n"
  shows "float_exponent k n \<le> - 1"
proof -
  from assms have "ilog2 k \<le> ilog2 n" by (intro ilog2_mono) simp
  then have d: "int (ilog2 k) - int (ilog2 n) \<le> 0" by simp
  from assms have x: "real k / real n < 1" by simp
  show ?thesis
  proof (cases "int (ilog2 k) - int (ilog2 n) = 0")
    case True
    with x show ?thesis by (simp add: float_exponent_def)
  next
    case False
    with d have "int (ilog2 k) - int (ilog2 n) \<le> - 1" by simp
    then show ?thesis by (simp add: float_exponent_def Let_def)
  qed
qed

lemma float_round_same: "0 < n \<Longrightarrow> float_round n n = 1"
proof -
  assume n: "0 < n"
  have e: "float_exponent n n = 0" using n by (simp add: float_exponent_def)
  have "(1::real) / 2 powi (- 52) = real_of_int (2 ^ 52)"
    by (simp add: power_int_minus)
  then have "round_half_even (1 / 2 powi (- 52)) = 2 ^ 52"
    by (simp only: round_half_even_of_int)
  then show ?thesis using n e by (simp add: float_round_def power_int_minus)
qed

lemma float_round_nonneg: "0 \<le> float_round k n"
proof (cases "k = 0")
  case True
  then show ?thesis by (simp add: float_round_def)
next
  case False
  define ulp :: real where "ulp = 2 powi (max (float_exponent k n) (- 1022) - 52)"
  have u: "0 < ulp" by (simp add: ulp_def)
  then have "0 \<le> real k / real n / ulp" by simp
  with round_half_even_bound [of "real k / real n / ulp"]
  have "- 1 < real_of_int (round_half_even (real k / real n / ulp))" by linarith
  then have "0 \<le> round_half_even (real k / real n / ulp)" by linarith
  with u False show ?thesis by (simp add: float_round_def Let_def ulp_def [symmetric])
qed

lemma float_round_error:
  assumes "k \<le> n" "0 < n"
  shows "\<bar>float_round k n - real k / real n\<bar> \<le> 1 / 2 ^ 54"
proof -
  consider "k = 0" | "k = n" | "0 < k" "k < n" using assms by linarith
  then show ?thesis
  proof cases
    case 1
    then show ?thesis by (simp add: float_round_def)
  next
    case 2
    with assms show ?thesis by (simp add: float_round_same)
  next
    case 3
    define e where "e = max (float_exponent k n) (- 1022)"
    define ulp :: real where "ulp = 2 powi (e - 52)"
    define y where "y = real k / real n / ulp"
    from float_exponent_le [OF 3] have "e \<le> - 1" by (simp add: e_def)
    then have "ulp \<le> 2 powi (- 53)"
      unfolding ulp_def by (intro power_int_increasing) simp_all
    then have ub: "ulp \<le> 1 / 2 ^ 53" by (simp add: power_int_minus field_simps)
    have u: "0 < ulp" by (simp add: ulp_def)
    have fr: "float_round k n = real_of_int (round_half_even y) * ulp"
      using 3 by (simp add: float_round_def Let_def e_def ulp_def y_def)
    have x: "real k / real n = y * ulp" using u by (simp add: y_def)
    have "\<bar>float_round k n - real k / real n\<bar> = \<bar>real_of_int (round_half_even y) - y\<bar> * ulp"
      unfolding fr x using u by (simp add: left_diff_distrib [symmetric] abs_mult)
    also have "\<dots> \<le> (1 / 2) * ulp"
      using round_half_even_bound [of y] u by (intro mult_right_mono) simp_all
    also have "\<dots> \<le> (1 / 2) * (1 / 2 ^ 53)"
      using ub by simp
    also have "\<dots> = 1 / 2 ^ 54" by simp
    finally show ?thesis .
  qed
qed

lemma float_exponent_bounds:
  assumes "0 < k" "0 < n"
  shows "2 powi float_exponent k n \<le> real k / real n \<and>
         real k / real n < 2 powi (float_exponent k n + 1)"
proof -
  define a where "a = ilog2 k"
  define b where "b = ilog2 n"
  from ilog2_bounds [OF assms(1)] have k: "2 ^ a \<le> k" "k < 2 ^ Suc a" by (simp_all add: a_def)
  from ilog2_bounds [OF assms(2)] have n: "2 ^ b \<le> n" "n < 2 ^ Suc b" by (simp_all add: b_def)
  from k have kr: "(2::real) ^ a \<le> real k" "real k < 2 ^ Suc a"
    by (metis of_nat_le_iff of_nat_numeral of_nat_power, metis of_nat_less_iff of_nat_numeral of_nat_power)
  from n have nr: "(2::real) ^ b \<le> real n" "real n < 2 ^ Suc b"
    by (metis of_nat_le_iff of_nat_numeral of_nat_power, metis of_nat_less_iff of_nat_numeral of_nat_power)
  have np: "0 < real n" using assms by simp
  have hi: "real k / real n < 2 powi (int a - int b + 1)"
  proof -
    have "real k / real n < 2 ^ Suc a / 2 ^ b"
      using kr nr np by (intro frac_less) simp_all
    also have "\<dots> = 2 powi (int a - int b + 1)"
      by (simp add: power_int_diff power_int_add)
    finally show ?thesis .
  qed
  have lo: "2 powi (int a - int b - 1) < real k / real n"
  proof -
    have "2 powi (int a - int b - 1) = (2::real) ^ a / 2 ^ Suc b"
      by (simp add: power_int_diff)
    also have "\<dots> < real k / real n"
      using kr nr np by (intro frac_less2) simp_all
    finally show ?thesis .
  qed
  show ?thesis
  proof (cases "2 powi (int a - int b) \<le> real k / real n")
    case True
    with hi show ?thesis by (simp add: float_exponent_def a_def b_def)
  next
    case False
    with lo show ?thesis by (simp add: float_exponent_def a_def b_def not_le)
  qed
qed

lemma take_idx_Inr_iff:
  "take_idx a idx = Inr s \<longleftrightarrow> (\<forall>j\<in>set idx. j < length a) \<and> s = map (\<lambda>j. a ! j) idx"
  by (auto simp: take_idx_def list_all_iff)

lemma take_idx_Inl: "take_idx a idx = Inl e \<Longrightarrow> e = IndexError"
  by (auto simp: take_idx_def split: if_splits)

lemma sorted_answers_Inr:
  "sorted_answers srt u scores = Inr sa \<Longrightarrow>
     length sa = length scores \<and>
     (\<forall>i<length scores. take_idx u (srt (map uminus (scores ! i))) = Inr (sa ! i))"
proof (induction scores arbitrary: sa)
  case Nil
  then show ?case by simp
next
  case (Cons row rows)
  then obtain s ss where s: "take_idx u (srt (map uminus row)) = Inr s"
    and ss: "sorted_answers srt u rows = Inr ss" and sa: "sa = s # ss"
    by (auto simp: bindE_Inr_iff)
  from Cons.IH [OF ss] s sa show ?case
    by (auto simp: nth_Cons split: nat.splits)
qed

lemma sorted_answers_Inl: "sorted_answers srt u scores = Inl e \<Longrightarrow> e = IndexError"
  by (induction scores) (auto simp: bindE_def take_idx_def split: sum.splits if_splits)

lemma sorted_answers_ok:
  "\<forall>row\<in>set scores. \<forall>j\<in>set (srt (map uminus row)). j < length u \<Longrightarrow>
     \<exists>sa. sorted_answers srt u scores = Inr sa"
  by (induction scores) (auto simp: take_idx_def list_all_iff)

lemma rank_loop_Inr:
  "rank_loop zs = Inr rl \<Longrightarrow>
     length rl = length zs \<and>
     (\<forall>i<length zs. \<exists>j. first_match (snd (zs ! i)) (AnswerId (fst (zs ! i))) = Inr j
                          \<and> rl ! i = int j + 1)"
proof (induction zs arbitrary: rl)
  case Nil
  then show ?case by simp
next
  case (Cons z zs)
  obtain q s where z: "z = (q, s)" by (cases z)
  with Cons.prems obtain j rl' where j: "first_match s (AnswerId q) = Inr j"
    and rl': "rank_loop zs = Inr rl'" and rl: "rl = (int j + 1) # rl'"
    by (auto simp: bindE_Inr_iff)
  from Cons.IH [OF rl'] j rl z show ?case
    by (auto simp: nth_Cons split: nat.splits)
qed

lemma rank_loop_Inl: "rank_loop zs = Inl e \<Longrightarrow> e = IndexError"
  by (induction zs) (auto simp: bindE_def split: sum.splits dest: first_match_Inl)

lemma rank_loop_ok:
  "\<forall>z\<in>set zs. AnswerId (fst z) \<in> set (snd z) \<Longrightarrow> \<exists>rl. rank_loop zs = Inr rl"
proof (induction zs)
  case Nil
  then show ?case by simp
next
  case (Cons z zs)
  obtain q s where z: "z = (q, s)" by (cases z)
  with Cons.prems obtain j where "first_match s (AnswerId q) = Inr j"
    using first_match_member [of "AnswerId q" s] by auto
  moreover from Cons obtain rl where "rank_loop zs = Inr rl" by auto
  ultimately show ?case using z by simp
qed

lemma rank_loop_fail:
  "z \<in> set zs \<Longrightarrow> AnswerId (fst z) \<notin> set (snd z) \<Longrightarrow> rank_loop zs = Inl IndexError"
proof (induction zs)
  case Nil
  then show ?case by simp
next
  case (Cons y zs)
  obtain q s where y: "y = (q, s)" by (cases y)
  show ?case
  proof (cases "AnswerId q \<in> set s")
    case True
    with Cons y have "rank_loop zs = Inl IndexError" by auto
    moreover from True obtain j where "first_match s (AnswerId q) = Inr j"
      using first_match_member by blast
    ultimately show ?thesis using y by simp
  next
    case False
    then show ?thesis using y by (simp add: first_match_absent)
  qed
qed

lemma rank_Inr:
  assumes "rank srt frame scores u = Inr ranked"
  shows "length scores = length frame \<and> length ranked = length frame \<and>
     (\<forall>i<length frame.
        AnswerId (ranked ! i) = AnswerId (frame ! i) \<and>
        take_idx u (srt (map uminus (scores ! i))) = Inr (SortedAnswers (ranked ! i)) \<and>
        (\<exists>j. first_match (SortedAnswers (ranked ! i)) (AnswerId (frame ! i)) = Inr j
              \<and> Rank (ranked ! i) = int j + 1))"
proof -
  from assms obtain sa rl where sa: "sorted_answers srt u scores = Inr sa"
    and len: "length sa = length frame"
    and rl: "rank_loop (zip frame sa) = Inr rl"
    and ranked: "ranked = map2 add_columns frame (zip sa rl)"
    by (auto simp: rank_def bindE_Inr_iff split: if_splits)
  note A = sorted_answers_Inr [OF sa]
  note B = rank_loop_Inr [OF rl]
  from A B len ranked show ?thesis
    by (auto simp: add_columns_def)
qed


lemma sorted_neg_desc:
  assumes "sorted (map (\<lambda>j. map uminus row ! j) p)" and "\<forall>j\<in>set p. j < length row"
  shows "sorted_wrt (\<ge>) (map (\<lambda>j. (row :: real list) ! j) p)"
  using assms by (induction p) auto

subsection \<open>Average Rank\<close>

text \<open>
  Claim C3. On a frame with at least one question, the Average Rank is the floor of the
  arithmetic mean of the ranks: the sum of all ranks is divided by the number of
  questions and the floor is taken once, of that quotient. It is therefore the integer
  quotient of the sum of the ranks by their number. On the ranks 1 and 2 it is 1, where
  the ceiling and the rounding of the mean 3/2 are both 2.
\<close>

theorem AR_floor_of_mean:
  assumes "testQ \<noteq> []"
  shows "AR testQ = Some (real_of_int \<lfloor>real_of_int (\<Sum>q\<leftarrow>testQ. Rank q) / real (length testQ)\<rfloor>)
       \<and> AR testQ = Some (real_of_int ((\<Sum>q\<leftarrow>testQ. Rank q) div int (length testQ)))"
  using assms by (simp add: AR_def series_mean_def floor_mean_div)

theorem AR_floor_of_mean_witness:
  "[\<lparr>AnswerId = 7, SortedAnswers = [7, 9], Rank = 1\<rparr>,
    \<lparr>AnswerId = 7, SortedAnswers = [9, 7], Rank = 2\<rparr>] \<noteq> [] \<and>
   AR [\<lparr>AnswerId = 7, SortedAnswers = [7, 9], Rank = 1\<rparr>,
       \<lparr>AnswerId = 7, SortedAnswers = [9, 7], Rank = 2\<rparr>] = Some 1 \<and>
   real_of_int \<lceil>(1 + 2) / (2::real)\<rceil> = 2 \<and> real_of_int (round ((1 + 2) / (2::real))) = 2"
  using AR_floor_of_mean [of "[\<lparr>AnswerId = 7, SortedAnswers = [7, 9], Rank = 1\<rparr>,
       \<lparr>AnswerId = 7, SortedAnswers = [9, 7], Rank = 2\<rparr>]"]
  by (simp add: round_def)

subsection \<open>Top-3 Percentage\<close>

text \<open>
  Claim C9. On a frame with at least one question, the Top-3 Percentage is the number of
  questions whose rank is at most 3, divided by the number of questions and rounded to 3
  decimal places: it is the float64 nearest to a decimal \<open>k / 1000\<close> with \<open>0 \<le> k \<le> 1000\<close>,
  which it meets up to \<open>2\<^sup>-\<^sup>5\<^sup>4\<close>, and \<open>k / 1000\<close> lies within \<open>1 / 2000\<close> of the fraction for
  every frame of fewer than \<open>2\<^sup>5\<^sup>3 / 1000\<close> questions (within \<open>1 / 2000 + 2\<^sup>-\<^sup>5\<^sup>4\<close> for any
  frame). Which of two equally near decimals is taken follows the float64 quotient, not
  the exact one: for 1 question of 80 in the top three the result is 0.013.
\<close>

theorem top3_fraction:
  assumes "testQ \<noteq> []"
  shows "\<exists>k. 0 \<le> k \<and> k \<le> 1000 \<and>
     top3 testQ = Inr (float_round (nat k) 1000) \<and>
     \<bar>float_round (nat k) 1000 - real_of_int k / 1000\<bar> \<le> 1 / 2 ^ 54 \<and>
     \<bar>real_of_int k / 1000
        - real (length (filter (\<lambda>q. Rank q \<le> 3) testQ)) / real (length testQ)\<bar>
       \<le> 1 / 2000 + 1 / 2 ^ 54 \<and>
     (1000 * length testQ < 2 ^ 53 \<longrightarrow>
      \<bar>real_of_int k / 1000
        - real (length (filter (\<lambda>q. Rank q \<le> 3) testQ)) / real (length testQ)\<bar>
       \<le> 1 / 2000)"
proof -
  define c where "c = length (filter (\<lambda>q. Rank q \<le> 3) testQ)"
  define n where "n = length testQ"
  define q where "q = float_round c n"
  define k where "k = round_half_even (q * 1000)"
  have n: "0 < n" using assms by (simp add: n_def)
  have cn: "c \<le> n" by (simp add: c_def n_def)
  note qe = float_round_error [OF cn n, folded q_def]
  have q0: "0 \<le> q" by (simp add: q_def float_round_nonneg)
  have x1: "real c / real n \<le> 1" using cn n by simp
  from qe x1 have q1: "q \<le> 1 + 1 / 2 ^ 54" by linarith
  note kb = round_half_even_bound [of "q * 1000", folded k_def]
  from kb q0 have "- 1 < real_of_int k" by linarith
  then have k0: "0 \<le> k" by linarith
  have tiny: "1 / 2 ^ 54 \<le> (1 / 4000 :: real)" by simp
  from kb q1 tiny have "real_of_int k < 1001" by linarith
  then have k1: "k \<le> 1000" by linarith
  have "q < 2 powi 1024"
  proof -
    have "q < 2" using q1 tiny by linarith
    also have "(2::real) \<le> 2 powi 1024" by (simp add: power_int_def)
    finally show ?thesis .
  qed
  then have td: "true_div c n = Inr q" using n by (simp add: true_div_def q_def)
  have pr: "py_round q 3 = float_round (nat k) 1000"
    using k0 by (simp add: py_round_def k_def [symmetric] Let_def)
  have t: "top3 testQ = Inr (float_round (nat k) 1000)"
    using td pr by (simp add: top3_def c_def n_def)
  from k0 k1 have kn: "nat k \<le> 1000" "real (nat k) = real_of_int k" by simp_all
  from float_round_error [OF kn(1)] kn(2)
  have fe: "\<bar>float_round (nat k) 1000 - real_of_int k / 1000\<bar> \<le> 1 / 2 ^ 54" by simp
  have kq: "\<bar>real_of_int k / 1000 - q\<bar> \<le> 1 / 2000"
    using kb by (simp add: abs_le_iff field_simps)
  from kq qe have near: "\<bar>real_of_int k / 1000 - real c / real n\<bar> \<le> 1 / 2000 + 1 / 2 ^ 54"
    by linarith
  have exact: "\<bar>real_of_int k / 1000 - real c / real n\<bar> \<le> 1 / 2000" if small: "1000 * n < 2 ^ 53"
  proof (rule ccontr)
    assume "\<not> \<bar>real_of_int k / 1000 - real c / real n\<bar> \<le> 1 / 2000"
    then have far: "1 / 2000 < \<bar>real_of_int k / 1000 - real c / real n\<bar>" by simp
    define D where "D = k * int n - 1000 * int c"
    have rn: "0 < real n" using n by simp
    have dd: "real_of_int k / 1000 - real c / real n = real_of_int D / (1000 * real n)"
      using rn by (simp add: D_def field_simps)
    have ad: "\<bar>real_of_int k / 1000 - real c / real n\<bar> = real_of_int \<bar>D\<bar> / (1000 * real n)"
      unfolding dd using rn by (simp add: abs_divide)
    from far have "real n < 2 * real_of_int \<bar>D\<bar>"
      unfolding ad using rn by (simp add: field_simps)
    then have "int n < 2 * \<bar>D\<bar>" by linarith
    then have "int n + 1 \<le> 2 * \<bar>D\<bar>" by simp
    then have lo: "real n + 1 \<le> 2 * real_of_int \<bar>D\<bar>" by linarith
    from near have "real_of_int \<bar>D\<bar> / (1000 * real n) \<le> 1 / 2000 + 1 / 2 ^ 54"
      unfolding ad .
    then have "real_of_int \<bar>D\<bar> \<le> (1 / 2000 + 1 / 2 ^ 54) * (1000 * real n)"
      using rn by (simp add: pos_divide_le_eq)
    then have hi: "2 * real_of_int \<bar>D\<bar> \<le> real n + 1000 * real n / 2 ^ 53"
      by (simp add: field_simps)
    from small have "real (1000 * n) < real (2 ^ 53)" by (rule of_nat_less_iff [THEN iffD2])
    then have "1000 * real n / 2 ^ 53 < 1" by simp
    with lo hi show False by linarith
  qed
  from k0 k1 t fe near exact show ?thesis
    unfolding c_def n_def by blast
qed

theorem top3_fraction_witness:
  "replicate 79 \<lparr>AnswerId = 7, SortedAnswers = [9, 8, 6, 7], Rank = 4\<rparr>
     @ [\<lparr>AnswerId = 7, SortedAnswers = [9, 7, 8, 6], Rank = 2\<rparr>] \<noteq> [] \<and>
   top3 (replicate 79 \<lparr>AnswerId = 7, SortedAnswers = [9, 8, 6, 7], Rank = 4\<rparr>
     @ [\<lparr>AnswerId = 7, SortedAnswers = [9, 7, 8, 6], Rank = 2\<rparr>])
     = Inr (float_round 13 1000) \<and>
   float_round 13 1000 = 7493989779944505 / 2 ^ 59 \<and>
   (\<exists>k. Inr (float_round 13 1000) = (Inr (float_round (nat k) 1000) :: error + real) \<and>
        \<bar>real_of_int k / 1000 - 1 / 80\<bar> \<le> 1 / 2000)"
proof -
  let ?t = "replicate 79 \<lparr>AnswerId = 7, SortedAnswers = [9, 8, 6, 7], Rank = 4\<rparr>
     @ [\<lparr>AnswerId = 7, SortedAnswers = [9, 7, 8, 6], Rank = 2\<rparr>]"
  have h: "?t \<noteq> []" by simp
  have e1: "float_exponent (Suc 0) 80 = - 7"
    by (simp add: float_exponent_def ilog2.simps power_int_minus)
  have e2: "float_exponent 13 1000 = - 7"
    by (simp add: float_exponent_def ilog2.simps power_int_minus)
  have q: "float_round (Suc 0) 80 = 3602879701896397 / 288230376151711744"
    by (simp add: float_round_def e1 round_half_even_def power_int_minus Let_def)
  have f: "float_round 13 1000 = 7493989779944505 / 2 ^ 59"
    by (simp add: float_round_def e2 round_half_even_def power_int_minus Let_def)
  have r: "py_round (3602879701896397 / 288230376151711744) 3 = float_round 13 1000"
    by (simp add: py_round_def round_half_even_def Let_def)
  have "true_div 1 80 = Inr (3602879701896397 / 288230376151711744)"
    by (simp add: true_div_def q power_int_def)
  then have v: "top3 ?t = Inr (float_round 13 1000)"
    by (simp add: top3_def r)
  have c: "real (length (filter (\<lambda>q. Rank q \<le> 3) ?t)) / real (length ?t) = 1 / 80" by simp
  have s: "1000 * length ?t < 2 ^ 53" by simp
  from top3_fraction [OF h] obtain k where "top3 ?t = Inr (float_round (nat k) 1000)"
    and "1000 * length ?t < 2 ^ 53 \<longrightarrow>
      \<bar>real_of_int k / 1000
        - real (length (filter (\<lambda>q. Rank q \<le> 3) ?t)) / real (length ?t)\<bar> \<le> 1 / 2000"
    by blast
  with s have "Inr (float_round 13 1000) = (Inr (float_round (nat k) 1000) :: error + real) \<and>
        \<bar>real_of_int k / 1000 - 1 / 80\<bar> \<le> 1 / 2000"
    unfolding v c by blast
  with h v f show ?thesis by blast
qed

subsection \<open>Rank\<close>

text \<open>
  Claim C4. Let the score matrix have one row per test question and one column per
  class, and let every true answer be one of the classes. Then \<open>rank\<close> returns a frame
  in which, for every question, \<open>SortedAnswers\<close> lists all classes by descending score,
  \<open>Rank\<close> is the 1-based position of the first occurrence of the true answer in that list,
  and \<open>Rank\<close> lies between 1 and the number of classes. This holds for every sorter that
  returns a sorting permutation, whatever it does with equal scores.
\<close>

theorem rank_position:
  assumes srt: "\<And>xs. is_argsort xs (srt xs)"
    and rows: "length scores = length frame"
    and cols: "\<forall>row\<in>set scores. length row = length classes"
    and known: "\<forall>q\<in>set frame. AnswerId q \<in> set classes"
  shows "\<exists>ranked. rank srt frame scores classes = Inr ranked \<and>
     length ranked = length frame \<and>
     (\<forall>i<length frame.
        AnswerId (ranked ! i) = AnswerId (frame ! i) \<and>
        (\<exists>p. distinct p \<and> set p = {0..<length classes} \<and>
             sorted_wrt (\<ge>) (map (\<lambda>j. scores ! i ! j) p) \<and>
             SortedAnswers (ranked ! i) = map (\<lambda>j. classes ! j) p) \<and>
        1 \<le> Rank (ranked ! i) \<and> Rank (ranked ! i) \<le> int (length classes) \<and>
        SortedAnswers (ranked ! i) ! nat (Rank (ranked ! i) - 1) = AnswerId (frame ! i) \<and>
        (\<forall>k<nat (Rank (ranked ! i) - 1). SortedAnswers (ranked ! i) ! k \<noteq> AnswerId (frame ! i)))"
proof -
  let ?u = classes
  have perm: "distinct (srt (map uminus row)) \<and> set (srt (map uminus row)) = {0..<length ?u}
      \<and> sorted_wrt (\<ge>) (map (\<lambda>j. row ! j) (srt (map uminus row)))"
    if "row \<in> set scores" for row
  proof -
    from srt [of "map uminus row"] that cols
    have d: "distinct (srt (map uminus row))"
      and s: "set (srt (map uminus row)) = {0..<length ?u}"
      and o: "sorted (map (\<lambda>j. map uminus row ! j) (srt (map uminus row)))"
      by (auto simp: is_argsort_def)
    from s that cols have "\<forall>j\<in>set (srt (map uminus row)). j < length row" by auto
    from sorted_neg_desc [OF o this] d s show ?thesis by blast
  qed
  then have "\<forall>row\<in>set scores. \<forall>j\<in>set (srt (map uminus row)). j < length ?u"
    by auto
  from sorted_answers_ok [OF this] obtain sa where sa: "sorted_answers srt ?u scores = Inr sa"
    by blast
  note A = sorted_answers_Inr [OF sa]
  have sa_i: "sa ! i = map (\<lambda>j. ?u ! j) (srt (map uminus (scores ! i)))"
    if "i < length frame" for i
    using A that rows by (auto simp: take_idx_Inr_iff)
  have set_sa: "set (sa ! i) = set ?u" if "i < length frame" for i
  proof -
    from that rows have "scores ! i \<in> set scores" by simp
    from perm [OF this] have "set (srt (map uminus (scores ! i))) = {0..<length ?u}" by blast
    then have "set (sa ! i) = (\<lambda>j. ?u ! j) ` {0..<length ?u}"
      using sa_i [OF that] by simp
    also have "\<dots> = set ?u"
      by (metis list.set_map map_nth set_upt)
    finally show ?thesis .
  qed
  have "\<forall>z\<in>set (zip frame sa). AnswerId (fst z) \<in> set (snd z)"
  proof
    fix z assume "z \<in> set (zip frame sa)"
    then obtain i where i: "i < length frame" "i < length sa" "z = (frame ! i, sa ! i)"
      by (auto simp: set_zip)
    with known set_sa show "AnswerId (fst z) \<in> set (snd z)" by auto
  qed
  from rank_loop_ok [OF this] obtain rl where rl: "rank_loop (zip frame sa) = Inr rl"
    by blast
  define ranked where "ranked = map2 add_columns frame (zip sa rl)"
  have r: "rank srt frame scores ?u = Inr ranked"
    using sa rl A rows by (simp add: rank_def ranked_def)
  note R = rank_Inr [OF r]
  have "AnswerId (ranked ! i) = AnswerId (frame ! i) \<and>
        (\<exists>p. distinct p \<and> set p = {0..<length ?u} \<and>
             sorted_wrt (\<ge>) (map (\<lambda>j. scores ! i ! j) p) \<and>
             SortedAnswers (ranked ! i) = map (\<lambda>j. ?u ! j) p) \<and>
        1 \<le> Rank (ranked ! i) \<and> Rank (ranked ! i) \<le> int (length ?u) \<and>
        SortedAnswers (ranked ! i) ! nat (Rank (ranked ! i) - 1) = AnswerId (frame ! i) \<and>
        (\<forall>k<nat (Rank (ranked ! i) - 1). SortedAnswers (ranked ! i) ! k \<noteq> AnswerId (frame ! i))"
    if i: "i < length frame" for i
  proof -
    let ?p = "srt (map uminus (scores ! i))"
    from i rows have "scores ! i \<in> set scores" by simp
    note P = perm [OF this]
    from R i have a: "AnswerId (ranked ! i) = AnswerId (frame ! i)"
      and t: "take_idx ?u ?p = Inr (SortedAnswers (ranked ! i))" by auto
    from R i obtain j where j: "first_match (SortedAnswers (ranked ! i)) (AnswerId (frame ! i)) = Inr j"
      and rk: "Rank (ranked ! i) = int j + 1" by auto
    from t have so: "SortedAnswers (ranked ! i) = map (\<lambda>j. ?u ! j) ?p"
      by (simp add: take_idx_Inr_iff)
    from P have "length ?p = length ?u"
      by (metis card_atLeastLessThan diff_zero distinct_card)
    with so have len: "length (SortedAnswers (ranked ! i)) = length ?u" by simp
    note F = first_match_Inr [OF j]
    from F len rk have "1 \<le> Rank (ranked ! i)" "Rank (ranked ! i) \<le> int (length ?u)"
      by auto
    moreover from F rk have "SortedAnswers (ranked ! i) ! nat (Rank (ranked ! i) - 1) = AnswerId (frame ! i)"
      and "\<forall>k<nat (Rank (ranked ! i) - 1). SortedAnswers (ranked ! i) ! k \<noteq> AnswerId (frame ! i)"
      by auto
    ultimately show ?thesis using a so P by blast
  qed
  with r R show ?thesis by blast
qed

theorem rank_position_witness:
  "length [[2/10, 5/10, 3/10], [6/10, 3/10, 1/10 :: real]]
     = length [\<lparr>AnswerId = 30\<rparr>, \<lparr>AnswerId = 20\<rparr>] \<and>
   rank argsort_stable [\<lparr>AnswerId = 30\<rparr>, \<lparr>AnswerId = 20\<rparr>]
        [[2/10, 5/10, 3/10], [6/10, 3/10, 1/10]] [10, 20, 30]
     = Inr [\<lparr>AnswerId = 30, SortedAnswers = [20, 30, 10], Rank = 2\<rparr>,
            \<lparr>AnswerId = 20, SortedAnswers = [10, 20, 30], Rank = 2\<rparr>] \<and>
   (\<exists>ranked. rank argsort_stable [\<lparr>AnswerId = 30\<rparr>, \<lparr>AnswerId = 20\<rparr>]
        [[2/10, 5/10, 3/10], [6/10, 3/10, 1/10]] [10, 20, 30] = Inr ranked \<and>
      1 \<le> Rank (ranked ! 0) \<and> Rank (ranked ! 0) \<le> 3 \<and>
      1 \<le> Rank (ranked ! 1) \<and> Rank (ranked ! 1) \<le> 3 \<and>
      SortedAnswers (ranked ! 0) ! nat (Rank (ranked ! 0) - 1) = 30 \<and>
      SortedAnswers (ranked ! 1) ! nat (Rank (ranked ! 1) - 1) = 20)"
proof -
  let ?F = "[\<lparr>AnswerId = 30\<rparr>, \<lparr>AnswerId = 20\<rparr>]"
  let ?S = "[[2/10, 5/10, 3/10], [6/10, 3/10, 1/10 :: real]]"
  let ?U = "[10, 20, 30 :: int]"
  have h1: "length ?S = length ?F" by simp
  have h2: "\<forall>row\<in>set ?S. length row = length ?U" by simp
  have h3: "\<forall>q\<in>set ?F. AnswerId q \<in> set ?U" by simp
  have v: "rank argsort_stable ?F ?S ?U
     = Inr [\<lparr>AnswerId = 30, SortedAnswers = [20, 30, 10], Rank = 2\<rparr>,
            \<lparr>AnswerId = 20, SortedAnswers = [10, 20, 30], Rank = 2\<rparr>]"
    by (simp add: rank_def take_idx_def argsort_stable_def first_match_def add_columns_def
        upt_rec)
  from rank_position [of argsort_stable, OF argsort_stable_ok h1 h2 h3]
  obtain ranked where r: "rank argsort_stable ?F ?S ?U = Inr ranked"
    and b: "\<forall>i<length ?F. 1 \<le> Rank (ranked ! i) \<and> Rank (ranked ! i) \<le> int (length ?U) \<and>
        SortedAnswers (ranked ! i) ! nat (Rank (ranked ! i) - 1) = AnswerId (?F ! i)"
    by blast
  from b [rule_format, of 0] b [rule_format, of 1]
  have "1 \<le> Rank (ranked ! 0) \<and> Rank (ranked ! 0) \<le> 3 \<and>
      1 \<le> Rank (ranked ! 1) \<and> Rank (ranked ! 1) \<le> 3 \<and>
      SortedAnswers (ranked ! 0) ! nat (Rank (ranked ! 0) - 1) = 30 \<and>
      SortedAnswers (ranked ! 1) ! nat (Rank (ranked ! 1) - 1) = 20" by simp
  with r h1 v show ?thesis by blast
qed

text \<open>
  Claim C10. When the true answer of some test question is not among the classes,
  \<open>rank\<close> returns no frame: the call raises an error, and when the score matrix has one
  row per question the error is the IndexError of the position lookup.
\<close>

theorem rank_unseen_class:
  assumes "\<exists>q\<in>set frame. AnswerId q \<notin> set classes"
  shows "(\<exists>e. rank srt frame scores classes = Inl e) \<and>
         (length scores = length frame \<longrightarrow>
            rank srt frame scores classes = Inl IndexError)"
proof (cases "sorted_answers srt classes scores")
  case (Inl e)
  then have "rank srt frame scores classes = Inl IndexError"
    using sorted_answers_Inl [OF Inl] by (simp add: rank_def)
  then show ?thesis by simp
next
  case (Inr sa)
  note A = sorted_answers_Inr [OF Inr]
  show ?thesis
  proof (cases "length sa = length frame")
    case False
    with Inr A show ?thesis by (simp add: rank_def)
  next
    case True
    from assms obtain i where i: "i < length frame" "AnswerId (frame ! i) \<notin> set classes"
      by (auto simp: in_set_conv_nth)
    with A True have "sa ! i = map (\<lambda>j. classes ! j) (srt (map uminus (scores ! i)))"
      and "\<forall>j\<in>set (srt (map uminus (scores ! i))). j < length classes"
      by (auto simp: take_idx_Inr_iff)
    then have "set (sa ! i) \<subseteq> set classes" by auto
    with i have "AnswerId (fst (frame ! i, sa ! i)) \<notin> set (snd (frame ! i, sa ! i))" by auto
    moreover from i True have "(frame ! i, sa ! i) \<in> set (zip frame sa)"
      by (auto simp: set_zip)
    ultimately have "rank_loop (zip frame sa) = Inl IndexError"
      by (rule rank_loop_fail [rotated])
    with Inr True show ?thesis by (simp add: rank_def)
  qed
qed

theorem rank_unseen_class_witness:
  "(\<exists>q\<in>set [\<lparr>AnswerId = 30\<rparr>, \<lparr>AnswerId = 99\<rparr>]. AnswerId q \<notin> set [10, 20, 30]) \<and>
   length [[2/10, 5/10, 3/10], [6/10, 3/10, 1/10 :: real]]
     = length [\<lparr>AnswerId = 30\<rparr>, \<lparr>AnswerId = 99\<rparr>] \<and>
   rank argsort_stable [\<lparr>AnswerId = 30\<rparr>, \<lparr>AnswerId = 99\<rparr>]
        [[2/10, 5/10, 3/10], [6/10, 3/10, 1/10]] [10, 20, 30] = Inl IndexError"
proof -
  let ?F = "[\<lparr>AnswerId = 30\<rparr>, \<lparr>AnswerId = 99\<rparr>]"
  let ?S = "[[2/10, 5/10, 3/10], [6/10, 3/10, 1/10 :: real]]"
  have h: "\<exists>q\<in>set ?F. AnswerId q \<notin> set [10, 20, 30]" by simp
  have l: "length ?S = length ?F" by simp
  from rank_unseen_class [OF h, of argsort_stable ?S] l
  have "rank argsort_stable ?F ?S [10, 20, 30] = Inl IndexError" by blast
  with h l show ?thesis by blast
qed

subsection \<open>Ensemble\<close>

lemma mean3_row_sum:
  assumes "length r1 = length r2" "length r2 = length r3"
  shows "sum_list (map (\<lambda>(a, b, c). (a + b + c) / 3) (zip r1 (zip r2 r3)))
           = (sum_list r1 + sum_list r2 + sum_list r3) / (3::real)"
  using assms by (induction r1 r2 r3 rule: list_induct3) (simp_all add: field_simps)

lemma map_length_nth: "map length A = map length B \<Longrightarrow> i < length A \<Longrightarrow> length (A ! i) = length (B ! i)"
  by (metis length_map nth_map)

text \<open>
  Claim C5. For three score matrices of one shape the ensemble is their entrywise
  arithmetic mean, each matrix with weight one third, and every row of the ensemble whose
  three input rows sum to 1 sums to 1 as well: the matrix that is returned is the mean
  itself, no normalisation follows the averaging.
\<close>

theorem ensemble_mean:
  assumes s12: "map length P1 = map length P2" and s23: "map length P2 = map length P3"
  shows "\<exists>M. Y_test_prob_aggr P1 P2 P3 = Inr M \<and> map length M = map length P1 \<and>
     (\<forall>q<length P1.
        (\<forall>c<length (P1 ! q). M ! q ! c = (P1 ! q ! c + P2 ! q ! c + P3 ! q ! c) / 3) \<and>
        (sum_list (P1 ! q) = 1 \<and> sum_list (P2 ! q) = 1 \<and> sum_list (P3 ! q) = 1
           \<longrightarrow> sum_list (M ! q) = 1))"
proof -
  define M where "M = map (\<lambda>(r1, r2, r3). map (\<lambda>(a, b, c). (a + b + c) / 3) (zip r1 (zip r2 r3)))
                  (zip P1 (zip P2 P3))"
  have r: "Y_test_prob_aggr P1 P2 P3 = Inr M"
    using s12 s23 by (simp add: Y_test_prob_aggr_def M_def)
  from s12 s23 have l: "length P1 = length P2" "length P2 = length P3"
    by (metis length_map)+
  have row: "M ! q = map (\<lambda>(a, b, c). (a + b + c) / 3) (zip (P1 ! q) (zip (P2 ! q) (P3 ! q)))"
    and lq: "length (P1 ! q) = length (P2 ! q)" "length (P2 ! q) = length (P3 ! q)"
    if "q < length P1" for q
    using that l map_length_nth [OF s12, of q] map_length_nth [OF s23, of q]
    by (simp_all add: M_def)
  have lM: "length M = length P1" using l by (simp add: M_def)
  have shape: "map length M = map length P1"
  proof (rule nth_equalityI)
    show "length (map length M) = length (map length P1)" using lM by simp
  next
    fix i assume "i < length (map length M)"
    with lM have i: "i < length P1" by simp
    with lM row [OF i] lq [OF i] show "map length M ! i = map length P1 ! i" by simp
  qed
  have "(\<forall>c<length (P1 ! q). M ! q ! c = (P1 ! q ! c + P2 ! q ! c + P3 ! q ! c) / 3) \<and>
        (sum_list (P1 ! q) = 1 \<and> sum_list (P2 ! q) = 1 \<and> sum_list (P3 ! q) = 1
           \<longrightarrow> sum_list (M ! q) = 1)" if q: "q < length P1" for q
    using row [OF q] lq [OF q] mean3_row_sum [OF lq [OF q]] by simp
  with r shape show ?thesis by blast
qed

theorem ensemble_mean_witness:
  "map length [[1/2, 1/2], [1, 0 :: real]] = map length [[1/4, 3/4], [0, 1 :: real]] \<and>
   map length [[1/4, 3/4], [0, 1 :: real]] = map length [[3/4, 1/4], [1/2, 1/2 :: real]] \<and>
   Y_test_prob_aggr [[1/2, 1/2], [1, 0]] [[1/4, 3/4], [0, 1]] [[3/4, 1/4], [1/2, 1/2]]
     = Inr [[1/2, 1/2], [1/2, 1/2]] \<and>
   (\<exists>M. Y_test_prob_aggr [[1/2, 1/2], [1, 0]] [[1/4, 3/4], [0, 1]] [[3/4, 1/4], [1/2, 1/2]]
     = Inr M \<and> sum_list (M ! 0) = 1 \<and> sum_list (M ! 1) = 1)"
proof -
  let ?A = "[[1/2, 1/2], [1, 0 :: real]]"
  let ?B = "[[1/4, 3/4], [0, 1 :: real]]"
  let ?C = "[[3/4, 1/4], [1/2, 1/2 :: real]]"
  have h1: "map length ?A = map length ?B" by simp
  have h2: "map length ?B = map length ?C" by simp
  have v: "Y_test_prob_aggr ?A ?B ?C = Inr [[1/2, 1/2], [1/2, 1/2]]"
    by (simp add: Y_test_prob_aggr_def)
  from ensemble_mean [OF h1 h2] obtain M where m: "Y_test_prob_aggr ?A ?B ?C = Inr M"
    and s: "\<forall>q<length ?A. sum_list (?A ! q) = 1 \<and> sum_list (?B ! q) = 1 \<and> sum_list (?C ! q) = 1
           \<longrightarrow> sum_list (M ! q) = 1"
    by blast
  from s [rule_format, of 0] s [rule_format, of 1]
  have "sum_list (M ! 0) = 1 \<and> sum_list (M ! 1) = 1" by simp
  with m h1 h2 v show ?thesis by blast
qed

subsection \<open>Naive Bayes scores\<close>

lemma foldr_max_rect_if:
  "\<forall>row\<in>set M. length row = n \<Longrightarrow>
     foldr (\<lambda>xs. max (length xs)) M 0 = (if M = [] then 0 else n)"
  by (induction M) (auto simp: max_def)

lemma foldr_max_rect:
  "\<forall>row\<in>set M. length row = n \<Longrightarrow> M \<noteq> [] \<Longrightarrow> foldr (\<lambda>xs. max (length xs)) M 0 = n"
  using foldr_max_rect_if [of M n] by simp

lemma shape1_rect: "\<forall>row\<in>set M. length row = n \<Longrightarrow> M \<noteq> [] \<Longrightarrow> shape1 M = n"
  by (cases M) (simp_all add: shape1_def)

lemma transpose_rect:
  assumes "\<forall>row\<in>set M. length row = shape1 M"
  shows "transpose M = map (\<lambda>q. map (\<lambda>row. row ! q) M) [0..<shape1 M]"
proof (cases "M = []")
  case True
  then show ?thesis by (simp add: shape1_def)
next
  case False
  have len: "length (transpose M) = shape1 M"
    using foldr_max_rect [OF assms False] by (simp add: length_transpose)
  show ?thesis
  proof (rule nth_equalityI)
    show "length (transpose M) = length (map (\<lambda>q. map (\<lambda>row. row ! q) M) [0..<shape1 M])"
      using len by simp
  next
    fix i assume i: "i < length (transpose M)"
    with len have "filter (\<lambda>ys. i < length ys) M = M"
      using assms by (auto simp: filter_id_conv)
    with i len show "transpose M ! i = map (\<lambda>q. map (\<lambda>row. row ! q) M) [0..<shape1 M] ! i"
      by (simp add: nth_transpose)
  qed
qed

lemma dot_cols:
  assumes "length x = length W"
  shows "sum_list (map2 (*) (map (\<lambda>row. row ! q) x) (map (\<lambda>row. row ! c) W))
       = (\<Sum>t\<leftarrow>[0..<length W]. x ! t ! q * W ! t ! (c::nat) :: real)"
proof -
  have "map2 (*) (map (\<lambda>row. row ! q) x) (map (\<lambda>row. row ! c) W)
      = map (\<lambda>t. x ! t ! q * W ! t ! c) [0..<length W]"
    using assms by (auto intro!: nth_equalityI)
  then show ?thesis by simp
qed

text \<open>
  Claim C7. Let \<open>x\<close> be the normalised term-frequency matrix of the test questions over the
  selected vocabulary (tokens by questions, as \<^verbatim>\<open>normalizeTF(testQ, token2IdHash)\<close> returns
  it) and let the weight matrix have one row per token. The Naive Bayes score matrix is
  the row-wise softmax of the products \<open>\<Sum>\<^sub>t x\<^sub>t\<^sub>q * NBWeights\<^sub>t\<^sub>c\<close>: the bias \<open>beta_A\<close> is 0
  and adds nothing, and the scores are computed from the weights alone, no estimator is
  fitted.
\<close>

theorem NB_scores:
  assumes x: "x = normalizeTF testQ token2IdHash"
    and rx: "\<forall>row\<in>set x. length row = shape1 x"
    and rW: "\<forall>row\<in>set NBWeights. length row = shape1 NBWeights"
    and tokens: "length x = length NBWeights"
  shows "Y_test_prob1 normalizeTF testQ token2IdHash NBWeights =
     Inr (map softmax_row
       (map (\<lambda>q. map (\<lambda>c. \<Sum>t\<leftarrow>[0..<length NBWeights]. x ! t ! q * NBWeights ! t ! c)
                     [0..<shape1 NBWeights])
            [0..<shape1 x]))"
proof -
  let ?W = NBWeights
  have tx: "transpose x = map (\<lambda>q. map (\<lambda>row. row ! q) x) [0..<shape1 x]"
    by (rule transpose_rect [OF rx])
  have tW: "transpose ?W = map (\<lambda>c. map (\<lambda>row. row ! c) ?W) [0..<shape1 ?W]"
    by (rule transpose_rect [OF rW])
  have ok: "list_all (\<lambda>row. length row = length ?W) (transpose x)"
    unfolding tx using tokens by (simp add: list_all_iff)
  have "np_dot (transpose x) ?W =
     Inr (map (\<lambda>q. map (\<lambda>c. \<Sum>t\<leftarrow>[0..<length ?W]. x ! t ! q * ?W ! t ! c) [0..<shape1 ?W])
            [0..<shape1 x])"
    using ok unfolding np_dot_def
    by (simp add: tx tW dot_cols [OF tokens] o_def)
  then show ?thesis
    by (simp add: Y_test_prob1_def x [symmetric] softmax_def beta_A_def)
qed

theorem NB_scores_witness:
  "length [[1/2, 1], [1/2, 0 :: real]] = length [[1, -1], [0, 2 :: real]] \<and>
   Y_test_prob1 (\<lambda>(frame :: unit) (hash :: unit). [[1/2, 1], [1/2, 0]]) () () [[1, -1], [0, 2]]
     = Inr (map softmax_row [[1/2, 1/2], [1, -1]])"
proof -
  let ?x = "[[1/2, 1], [1/2, 0 :: real]]"
  let ?W = "[[1, -1], [0, 2 :: real]]"
  let ?f = "\<lambda>(frame :: unit) (hash :: unit). ?x"
  have x: "?x = ?f () ()" by simp
  have rx: "\<forall>row\<in>set ?x. length row = shape1 ?x" by (simp add: shape1_def)
  have rW: "\<forall>row\<in>set ?W. length row = shape1 ?W" by (simp add: shape1_def)
  have l: "length ?x = length ?W" by simp
  have s: "shape1 ?x = 2" "shape1 ?W = 2" by (simp_all add: shape1_def)
  have u: "[0..<2] = [0, Suc 0]" by (simp add: upt_rec)
  from NB_scores [of ?x ?f "()" "()", OF x rx rW l]
  have "Y_test_prob1 ?f () () ?W = Inr (map softmax_row [[1/2, 1/2], [1, -1]])"
    unfolding s by (simp add: u)
  with l show ?thesis by blast
qed

subsection \<open>One-versus-rest classifier\<close>

lemma mapE_Inr:
  "mapE f xs = Inr ys \<Longrightarrow> length ys = length xs \<and> (\<forall>k<length xs. f (xs ! k) = Inr (ys ! k))"
proof (induction xs arbitrary: ys)
  case Nil
  then show ?case by simp
next
  case (Cons x xs)
  then obtain y ys' where y: "f x = Inr y" and ys': "mapE f xs = Inr ys'" and ys: "ys = y # ys'"
    by (auto simp: bindE_Inr_iff)
  from Cons.IH [OF ys'] y ys show ?case
    by (auto simp: nth_Cons split: nat.splits)
qed

lemma bmul_same_length:
  "length row = length w \<Longrightarrow> bmul row w = Inr (map (\<lambda>t. row ! t * w ! t) [0..<length w])"
  by (auto simp: bmul_def intro!: nth_equalityI)

lemma column_Inr: "column M i = Inr w \<Longrightarrow> w = map (\<lambda>row. row ! i) M"
  by (auto simp: column_def split: if_splits)

text \<open>
  The entries of \<^verbatim>\<open>x.T * w\<close> for a rectangular \<open>x\<close> with as many rows as \<open>w\<close> has entries.
\<close>

lemma mul_rows_transpose:
  assumes rect: "\<forall>row\<in>set x. length row = shape1 x"
    and len: "length x = length w"
    and run: "mul_rows (transpose x) w = Inr X"
  shows "X = map (\<lambda>j. map (\<lambda>t. x ! t ! j * w ! t) [0..<length w]) [0..<shape1 x]"
proof -
  note tx = transpose_rect [OF rect]
  from mapE_Inr [OF run [unfolded mul_rows_def]]
  have lX: "length X = shape1 x"
    and rows: "\<forall>k<shape1 x. bmul (transpose x ! k) w = Inr (X ! k)"
    by (simp_all add: tx)
  show ?thesis
  proof (rule nth_equalityI)
    show "length X = length (map (\<lambda>j. map (\<lambda>t. x ! t ! j * w ! t) [0..<length w]) [0..<shape1 x])"
      using lX by simp
  next
    fix k assume "k < length X"
    with lX have k: "k < shape1 x" by simp
    have tk: "transpose x ! k = map (\<lambda>row. row ! k) x"
      using k by (simp add: tx)
    then have "length (transpose x ! k) = length w" using len by simp
    from bmul_same_length [OF this] rows k
    have "X ! k = map (\<lambda>t. transpose x ! k ! t * w ! t) [0..<length w]" by simp
    also have "\<dots> = map (\<lambda>t. x ! t ! k * w ! t) [0..<length w]"
      using len by (simp add: tk)
    finally show "X ! k = map (\<lambda>j. map (\<lambda>t. x ! t ! j * w ! t) [0..<length w]) [0..<shape1 x] ! k"
      using k by simp
  qed
qed

lemma iloc_get_dummies:
  "iloc_col (get_dummies labels) i = Inr Y \<Longrightarrow>
     i < length (np_unique labels) \<and> Y = map (\<lambda>l. if l = np_unique labels ! i then 1 else 0) labels"
  by (auto simp: iloc_col_def get_dummies_def np_unique_def split: if_splits)

lemma test_scores_Inr:
  assumes "test_scores clf m X_test = Inr v"
  shows "v = map (\<lambda>x. case decision_function clf of
                        Some d \<Rightarrow> d m x
                      | None \<Rightarrow> predict_proba clf m x ! 1) X_test"
  using assms by (auto simp: test_scores_def column_def split: option.splits if_splits)

lemma assign_col_same: "length v = n \<Longrightarrow> assign_col n v = Inr v"
  by (simp add: assign_col_def)

lemma ovr_column_Inr:
  assumes rtr: "\<forall>row\<in>set x_wTrain. length row = shape1 x_wTrain"
    and rte: "\<forall>row\<in>set x_wTest. length row = shape1 x_wTest"
    and ltr: "length x_wTrain = length NBWeights"
    and lte: "length x_wTest = length NBWeights"
    and run: "ovr_column clf ratio x_wTrain x_wTest NBWeights (get_dummies labels)
                (shape1 x_wTest) i g = Inr (col, g1)"
  shows "i < length (np_unique labels) \<and>
    (\<exists>X_train Y_train.
       select_train ratio g
         (map (\<lambda>j. map (\<lambda>t. x_wTrain ! t ! j * NBWeights ! t ! i) [0..<length NBWeights])
              [0..<shape1 x_wTrain])
         (map (\<lambda>l. if l = np_unique labels ! i then 1 else 0) labels)
         = Inr ((X_train, Y_train), g1) \<and>
       col = map (\<lambda>q. case decision_function clf of
                    Some d \<Rightarrow> d (fit clf X_train Y_train)
                      (map (\<lambda>t. x_wTest ! t ! q * NBWeights ! t ! i) [0..<length NBWeights])
                  | None \<Rightarrow> predict_proba clf (fit clf X_train Y_train)
                      (map (\<lambda>t. x_wTest ! t ! q * NBWeights ! t ! i) [0..<length NBWeights]) ! 1)
               [0..<shape1 x_wTest])"
proof -
  from run obtain w X_train_all Y_train_all X_test X_train Y_train v
    where w: "column NBWeights i = Inr w"
      and Xa: "mul_rows (transpose x_wTrain) w = Inr X_train_all"
      and Ya: "iloc_col (get_dummies labels) i = Inr Y_train_all"
      and Xt: "mul_rows (transpose x_wTest) w = Inr X_test"
      and sel: "select_train ratio g X_train_all Y_train_all = Inr ((X_train, Y_train), g1)"
      and v: "test_scores clf (fit clf X_train Y_train) X_test = Inr v"
      and col: "assign_col (shape1 x_wTest) v = Inr col"
    unfolding ovr_column_def by (auto simp: bindE_Inr_iff)
  from column_Inr [OF w] have w_eq: "w = map (\<lambda>row. row ! i) NBWeights" .
  then have lw: "length w = length NBWeights" by simp
  have scale: "map (\<lambda>t. x ! t ! j * w ! t) [0..<length w]
             = map (\<lambda>t. x ! t ! j * NBWeights ! t ! i) [0..<length NBWeights]" for x :: matrix and j
    by (simp add: w_eq)
  from ltr lte lw have lxw: "length x_wTrain = length w" "length x_wTest = length w"
    by simp_all
  have Xa_eq: "X_train_all =
      map (\<lambda>j. map (\<lambda>t. x_wTrain ! t ! j * NBWeights ! t ! i) [0..<length NBWeights])
          [0..<shape1 x_wTrain]"
    using mul_rows_transpose [OF rtr lxw(1) Xa] unfolding scale .
  have Xt_eq: "X_test =
      map (\<lambda>q. map (\<lambda>t. x_wTest ! t ! q * NBWeights ! t ! i) [0..<length NBWeights])
          [0..<shape1 x_wTest]"
    using mul_rows_transpose [OF rte lxw(2) Xt] unfolding scale .
  note Y = iloc_get_dummies [OF Ya]
  from test_scores_Inr [OF v] have v_eq: "v = map (\<lambda>x. case decision_function clf of
                        Some d \<Rightarrow> d (fit clf X_train Y_train) x
                      | None \<Rightarrow> predict_proba clf (fit clf X_train Y_train) x ! 1) X_test" .
  then have "length v = shape1 x_wTest" by (simp add: Xt_eq)
  from assign_col_same [OF this] col have "col = v" by simp
  with v_eq have "col = map (\<lambda>q. case decision_function clf of
                    Some d \<Rightarrow> d (fit clf X_train Y_train)
                      (map (\<lambda>t. x_wTest ! t ! q * NBWeights ! t ! i) [0..<length NBWeights])
                  | None \<Rightarrow> predict_proba clf (fit clf X_train Y_train)
                      (map (\<lambda>t. x_wTest ! t ! q * NBWeights ! t ! i) [0..<length NBWeights]) ! 1)
               [0..<shape1 x_wTest]"
    by (simp add: Xt_eq o_def)
  with sel Xa_eq Y show ?thesis by blast
qed

lemma ovr_loop_Inr:
  "ovr_loop clf ratio x_wTrain x_wTest NBWeights dummyLabels numTest cls g = Inr (cols, g') \<Longrightarrow>
     length cols = length cls \<and>
     (\<forall>k<length cls. \<exists>gi gi'.
        ovr_column clf ratio x_wTrain x_wTest NBWeights dummyLabels numTest (cls ! k) gi
          = Inr (cols ! k, gi'))"
proof (induction cls arbitrary: g cols)
  case Nil
  then show ?case by simp
next
  case (Cons i rest)
  from Cons.prems obtain col g1 cols' where
    c: "ovr_column clf ratio x_wTrain x_wTest NBWeights dummyLabels numTest i g = Inr (col, g1)"
    and r: "ovr_loop clf ratio x_wTrain x_wTest NBWeights dummyLabels numTest rest g1 = Inr (cols', g')"
    and cols: "cols = col # cols'"
    by (auto simp: bindE_Inr_iff)
  from Cons.IH [OF r] have l: "length cols' = length rest"
    and ih: "\<forall>k<length rest. \<exists>gi gi'.
        ovr_column clf ratio x_wTrain x_wTest NBWeights dummyLabels numTest (rest ! k) gi
          = Inr (cols' ! k, gi')" by blast+
  have "\<exists>gi gi'. ovr_column clf ratio x_wTrain x_wTest NBWeights dummyLabels numTest ((i # rest) ! k) gi
          = Inr (cols ! k, gi')" if "k < length (i # rest)" for k
  proof (cases k)
    case 0
    with c cols show ?thesis by auto
  next
    case (Suc k')
    with that ih cols show ?thesis by auto
  qed
  with l cols show ?case by simp
qed

lemma ovrClassifier_columns:
  assumes rtr: "\<forall>row\<in>set x_wTrain. length row = shape1 x_wTrain"
    and rte: "\<forall>row\<in>set x_wTest. length row = shape1 x_wTest"
    and ltr: "length x_wTrain = length NBWeights"
    and lte: "length x_wTest = length NBWeights"
    and run: "ovrClassifier g trainLabels x_wTrain x_wTest NBWeights clf ratio = Inr (P, g')"
  shows "\<exists>Y. P = map softmax_row Y \<and> length Y = shape1 x_wTest \<and>
    (\<forall>q<shape1 x_wTest. length (Y ! q) = length (np_unique trainLabels)) \<and>
    (\<forall>i<length (np_unique trainLabels). \<exists>X_train Y_train gi gi'.
       select_train ratio gi
         (map (\<lambda>j. map (\<lambda>t. x_wTrain ! t ! j * NBWeights ! t ! i) [0..<length NBWeights])
              [0..<shape1 x_wTrain])
         (map (\<lambda>l. if l = np_unique trainLabels ! i then 1 else 0) trainLabels)
         = Inr ((X_train, Y_train), gi') \<and>
       (\<forall>q<shape1 x_wTest. Y ! q ! i =
          (case decision_function clf of
             Some d \<Rightarrow> d (fit clf X_train Y_train)
               (map (\<lambda>t. x_wTest ! t ! q * NBWeights ! t ! i) [0..<length NBWeights])
           | None \<Rightarrow> predict_proba clf (fit clf X_train Y_train)
               (map (\<lambda>t. x_wTest ! t ! q * NBWeights ! t ! i) [0..<length NBWeights]) ! 1)))"
proof -
  let ?n = "length (np_unique trainLabels)"
  let ?numTest = "shape1 x_wTest"
  from run obtain cols where
    loop: "ovr_loop clf ratio x_wTrain x_wTest NBWeights (get_dummies trainLabels) ?numTest
             [0..<?n] g = Inr (cols, g')"
    and P: "P = softmax (map (\<lambda>q. map (\<lambda>col. col ! q) cols) [0..<?numTest])"
    unfolding ovrClassifier_def Let_def by (auto simp: bindE_Inr_iff)
  define Y where "Y = map (\<lambda>q. map (\<lambda>col. col ! q) cols) [0..<?numTest]"
  from ovr_loop_Inr [OF loop] have lc: "length cols = ?n"
    and each: "\<forall>k<?n. \<exists>gi gi'.
        ovr_column clf ratio x_wTrain x_wTest NBWeights (get_dummies trainLabels) ?numTest k gi
          = Inr (cols ! k, gi')"
    by auto
  have cls: "\<exists>X_train Y_train gi gi'.
       select_train ratio gi
         (map (\<lambda>j. map (\<lambda>t. x_wTrain ! t ! j * NBWeights ! t ! i) [0..<length NBWeights])
              [0..<shape1 x_wTrain])
         (map (\<lambda>l. if l = np_unique trainLabels ! i then 1 else 0) trainLabels)
         = Inr ((X_train, Y_train), gi') \<and>
       (\<forall>q<?numTest. Y ! q ! i =
          (case decision_function clf of
             Some d \<Rightarrow> d (fit clf X_train Y_train)
               (map (\<lambda>t. x_wTest ! t ! q * NBWeights ! t ! i) [0..<length NBWeights])
           | None \<Rightarrow> predict_proba clf (fit clf X_train Y_train)
               (map (\<lambda>t. x_wTest ! t ! q * NBWeights ! t ! i) [0..<length NBWeights]) ! 1))"
    if i: "i < ?n" for i
  proof -
    from each i obtain gi gi' where
      "ovr_column clf ratio x_wTrain x_wTest NBWeights (get_dummies trainLabels) ?numTest i gi
          = Inr (cols ! i, gi')" by blast
    from ovr_column_Inr [OF rtr rte ltr lte this] obtain X_train Y_train where
      sel: "select_train ratio gi
         (map (\<lambda>j. map (\<lambda>t. x_wTrain ! t ! j * NBWeights ! t ! i) [0..<length NBWeights])
              [0..<shape1 x_wTrain])
         (map (\<lambda>l. if l = np_unique trainLabels ! i then 1 else 0) trainLabels)
         = Inr ((X_train, Y_train), gi')"
      and col: "cols ! i = map (\<lambda>q. case decision_function clf of
                    Some d \<Rightarrow> d (fit clf X_train Y_train)
                      (map (\<lambda>t. x_wTest ! t ! q * NBWeights ! t ! i) [0..<length NBWeights])
                  | None \<Rightarrow> predict_proba clf (fit clf X_train Y_train)
                      (map (\<lambda>t. x_wTest ! t ! q * NBWeights ! t ! i) [0..<length NBWeights]) ! 1)
               [0..<?numTest]"
      by blast
    have "Y ! q ! i = cols ! i ! q" if "q < ?numTest" for q
      using that i lc by (simp add: Y_def)
    then have "\<forall>q<?numTest. Y ! q ! i =
          (case decision_function clf of
             Some d \<Rightarrow> d (fit clf X_train Y_train)
               (map (\<lambda>t. x_wTest ! t ! q * NBWeights ! t ! i) [0..<length NBWeights])
           | None \<Rightarrow> predict_proba clf (fit clf X_train Y_train)
               (map (\<lambda>t. x_wTest ! t ! q * NBWeights ! t ! i) [0..<length NBWeights]) ! 1)"
      by (cases "decision_function clf") (simp_all add: col)
    with sel show ?thesis by blast
  qed
  have "P = map softmax_row Y" using P by (simp add: Y_def softmax_def)
  moreover have "length Y = ?numTest" by (simp add: Y_def)
  moreover have "\<forall>q<?numTest. length (Y ! q) = ?n" using lc by (simp add: Y_def)
  ultimately show ?thesis using cls by blast
qed

lemma neg_sample_Inr:
  assumes "neg_sample r g Y = Inr (negIdx, g')"
  shows "negIdx = map (\<lambda>k. where_eq Y 0 ! (g k mod length (where_eq Y 0)))
                    [0..<nat (r * int (length (where_eq Y 1)))] \<and>
         where_eq Y 0 \<noteq> [] \<and> set negIdx \<subseteq> set (where_eq Y 0)"
proof -
  from assms have ne: "where_eq Y 0 \<noteq> []"
    and eq: "negIdx = map (\<lambda>k. where_eq Y 0 ! (g k mod length (where_eq Y 0)))
                    [0..<nat (r * int (length (where_eq Y 1)))]"
    by (auto simp: neg_sample_def random_choice_def split: if_splits)
  have "set negIdx \<subseteq> set (where_eq Y 0)"
  proof
    fix j assume "j \<in> set negIdx"
    then obtain k where "j = where_eq Y 0 ! (g k mod length (where_eq Y 0))"
      unfolding eq by auto
    moreover have "g k mod length (where_eq Y 0) < length (where_eq Y 0)" using ne by simp
    ultimately show "j \<in> set (where_eq Y 0)" by simp
  qed
  with ne eq show ?thesis by blast
qed

lemma select_train_None:
  "select_train None g X Y = Inr ((X_train, Y_train), g') \<Longrightarrow> X_train = X \<and> Y_train = Y \<and> g' = g"
  by (simp add: select_train_def)

lemma select_train_Some:
  assumes "select_train (Some r) g X Y = Inr ((X_train, Y_train), g')"
  shows "\<exists>negIdx. neg_sample r g Y = Inr (negIdx, g') \<and>
     (\<forall>j\<in>set (where_eq Y 1 @ negIdx). j < length X) \<and>
     X_train = map (\<lambda>j. X ! j) (where_eq Y 1 @ negIdx) \<and>
     Y_train = replicate (length (where_eq Y 1)) 1 @ replicate (length negIdx) 0"
proof -
  from assms obtain negIdx where ns: "neg_sample r g Y = Inr (negIdx, g')"
    and tx: "take_idx X (where_eq Y 1 @ negIdx) = Inr X_train"
    and ty: "take_idx Y (where_eq Y 1 @ negIdx) = Inr Y_train"
    by (auto simp: select_train_def bindE_Inr_iff Let_def)
  from neg_sample_Inr [OF ns] have sub: "set negIdx \<subseteq> set (where_eq Y 0)" by blast
  have pos: "map (\<lambda>j. Y ! j) (where_eq Y 1) = replicate (length (where_eq Y 1)) 1"
    by (auto simp: map_replicate_const [symmetric] where_eq_def intro!: map_cong)
  have neg: "map (\<lambda>j. Y ! j) negIdx = replicate (length negIdx) 0"
  proof -
    have "\<forall>j\<in>set negIdx. Y ! j = 0" using sub by (auto simp: where_eq_def)
    then have "map (\<lambda>j. Y ! j) negIdx = map (\<lambda>j. 0) negIdx" by (intro map_cong) simp_all
    then show ?thesis by (simp add: map_replicate_const)
  qed
  from tx ty pos neg ns show ?thesis
    by (auto simp: take_idx_Inr_iff)
qed

lemma where_eq_indicator:
  "where_eq (map (\<lambda>l. if l = c then 1 else 0) labels) 1
     = filter (\<lambda>j. labels ! j = c) [0..<length labels]"
  "where_eq (map (\<lambda>l. if l = c then 1 else 0) labels) 0
     = filter (\<lambda>j. labels ! j \<noteq> c) [0..<length labels]"
  by (auto simp: where_eq_def intro!: filter_cong split: if_splits)

lemma train_set_facts:
  assumes "select_train ratio g X (map (\<lambda>l. if l = c then 1 else 0) labels)
             = Inr ((X_train, Y_train), g')"
  shows "case ratio of
           None \<Rightarrow> X_train = X \<and> Y_train = map (\<lambda>l. if l = c then 1 else 0) labels
         | Some r \<Rightarrow>
             \<exists>negIdx. neg_sample r g (map (\<lambda>l. if l = c then 1 else 0) labels) = Inr (negIdx, g') \<and>
               length negIdx
                 = nat (r * int (length (filter (\<lambda>j. labels ! j = c) [0..<length labels]))) \<and>
               (\<forall>j\<in>set negIdx. j < length labels \<and> labels ! j \<noteq> c) \<and>
               (\<forall>j\<in>set (filter (\<lambda>j. labels ! j = c) [0..<length labels] @ negIdx).
                  j < length X) \<and>
               X_train = map (\<lambda>j. X ! j)
                           (filter (\<lambda>j. labels ! j = c) [0..<length labels] @ negIdx) \<and>
               Y_train = replicate (length (filter (\<lambda>j. labels ! j = c) [0..<length labels])) 1
                           @ replicate (length negIdx) 0"
proof (cases ratio)
  case None
  with assms show ?thesis by (simp add: select_train_None)
next
  case (Some r)
  let ?Y = "map (\<lambda>l. if l = c then 1 else 0) labels"
  from select_train_Some [OF assms [unfolded Some]] obtain negIdx where
    ns: "neg_sample r g ?Y = Inr (negIdx, g')"
    and b: "\<forall>j\<in>set (where_eq ?Y 1 @ negIdx). j < length X"
    and x: "X_train = map (\<lambda>j. X ! j) (where_eq ?Y 1 @ negIdx)"
    and y: "Y_train = replicate (length (where_eq ?Y 1)) 1 @ replicate (length negIdx) 0"
    by blast
  from neg_sample_Inr [OF ns] have
    eq: "negIdx = map (\<lambda>k. where_eq ?Y 0 ! (g k mod length (where_eq ?Y 0)))
                    [0..<nat (r * int (length (where_eq ?Y 1)))]"
    and sub: "set negIdx \<subseteq> set (where_eq ?Y 0)" by blast+
  have len: "length negIdx = nat (r * int (length (where_eq ?Y 1)))"
    by (subst eq) simp
  from sub have neg: "\<forall>j\<in>set negIdx. j < length labels \<and> labels ! j \<noteq> c"
    unfolding where_eq_indicator by auto
  from ns len neg b x y show ?thesis
    unfolding Some where_eq_indicator by auto
qed


lemma map_sum_fst_Inr: "map_sum id fst r = Inr c \<Longrightarrow> \<exists>g'. r = Inr (c, g')"
  by (cases r) auto


subsection \<open>Negative sampling\<close>

lemma where_eq_set: "set (where_eq ys v) = {j. j < length ys \<and> ys ! j = v}"
  by (auto simp: where_eq_def)

text \<open>
  Claim C1, as the code has it. With a ratio that is not negative and at least one
  negative example, the draw returns exactly \<open>ratio\<close> times the number of positive examples
  positions, every one the position of a negative example. The draw is with replacement:
  every sequence of that length over the negative examples is the outcome for some state
  of the generator, so the count is not capped by the number of negative examples and a
  negative example can be drawn more than once.
\<close>

theorem neg_sample_draws:
  assumes ratio: "0 \<le> ratio" and negs: "where_eq Y_train_all 0 \<noteq> []"
  shows "(\<exists>negIdx g'. neg_sample ratio g Y_train_all = Inr (negIdx, g') \<and>
        length negIdx = nat ratio * length (where_eq Y_train_all 1) \<and>
        (\<forall>j\<in>set negIdx. j < length Y_train_all \<and> Y_train_all ! j = 0)) \<and>
     (\<forall>target. length target = nat ratio * length (where_eq Y_train_all 1) \<and>
               set target \<subseteq> set (where_eq Y_train_all 0) \<longrightarrow>
        (\<exists>g0 g'. neg_sample ratio g0 Y_train_all = Inr (target, g')))"
proof -
  let ?a = "where_eq Y_train_all 0"
  let ?N = "nat ratio * length (where_eq Y_train_all 1)"
  have sz: "nat (ratio * int (length (where_eq Y_train_all 1))) = ?N"
    using ratio by (simp add: nat_mult_distrib)
  have nonneg: "\<not> ratio * int (length (where_eq Y_train_all 1)) < 0"
    using ratio by (simp add: not_less)
  have run: "neg_sample ratio h Y_train_all =
      Inr (map (\<lambda>k. ?a ! (h k mod length ?a)) [0..<?N], \<lambda>k. h (k + ?N))" for h
    using negs nonneg unfolding neg_sample_def random_choice_def sz [symmetric] by simp
  have "\<forall>j\<in>set (map (\<lambda>k. ?a ! (g k mod length ?a)) [0..<?N]). j < length Y_train_all \<and> Y_train_all ! j = 0"
  proof
    fix j assume "j \<in> set (map (\<lambda>k. ?a ! (g k mod length ?a)) [0..<?N])"
    then obtain k where "j = ?a ! (g k mod length ?a)" by auto
    moreover have "g k mod length ?a < length ?a" using negs by simp
    ultimately have "j \<in> set ?a" by simp
    then show "j < length Y_train_all \<and> Y_train_all ! j = 0" by (simp add: where_eq_set)
  qed
  then have first: "\<exists>negIdx g'. neg_sample ratio g Y_train_all = Inr (negIdx, g') \<and>
        length negIdx = ?N \<and> (\<forall>j\<in>set negIdx. j < length Y_train_all \<and> Y_train_all ! j = 0)"
    using run [of g] by simp
  have second: "\<exists>g0 g'. neg_sample ratio g0 Y_train_all = Inr (target, g')"
    if len: "length target = ?N" and sub: "set target \<subseteq> set ?a" for target
  proof -
    define g0 where "g0 k = (SOME i. i < length ?a \<and> ?a ! i = target ! k)" for k
    have pick: "g0 k < length ?a \<and> ?a ! g0 k = target ! k" if "k < ?N" for k
    proof -
      from that len sub have "target ! k \<in> set ?a" by (metis nth_mem subsetD)
      then have "\<exists>i. i < length ?a \<and> ?a ! i = target ! k" by (simp add: in_set_conv_nth)
      then show ?thesis unfolding g0_def by (rule someI_ex)
    qed
    have "map (\<lambda>k. ?a ! (g0 k mod length ?a)) [0..<?N] = target"
      using len pick by (auto intro!: nth_equalityI)
    with run [of g0] show ?thesis by auto
  qed
  from first second show ?thesis by blast
qed

theorem neg_sample_draws_witness:
  "(0::int) \<le> 3 \<and> where_eq [1, 1, 0] 0 \<noteq> [] \<and>
   (\<exists>negIdx g'. neg_sample 3 id [1, 1, 0] = Inr (negIdx, g') \<and> length negIdx = 6)"
proof -
  have h1: "(0::int) \<le> 3" by simp
  have h2: "where_eq [1, 1, 0] 0 \<noteq> []" by code_simp
  have l: "length (where_eq [1, 1, 0] 1) = 2" by code_simp
  from neg_sample_draws [OF h1 h2, of id] obtain negIdx g'
    where "neg_sample 3 id [1, 1, 0] = Inr (negIdx, g')"
      and "length negIdx = nat 3 * length (where_eq [1, 1, 0] 1)" by blast
  then have "\<exists>negIdx g'. neg_sample 3 id [1, 1, 0] = Inr (negIdx, g') \<and> length negIdx = 6"
    unfolding l by auto
  with h1 h2 show ?thesis by blast
qed

text \<open>
  The claim as stated fails: for the labels 1, 1, 2 and the ratio 3 the class of label 1
  has two positive examples and one negative example, and six negative examples are
  drawn, all of them the same one.
\<close>

theorem neg_sample_exceeds_negatives:
  "get_dummies [1, 1, 2] ! 0 = [1, 1, 0] \<and> where_eq [1, 1, 0] 0 = [2] \<and>
   map_sum id fst (neg_sample 3 id [1, 1, 0]) = Inr [2, 2, 2, 2, 2, 2] \<and>
   \<not> length [2, 2, 2, 2, 2, 2 :: nat] \<le> length (where_eq [1, 1, 0] 0) \<and>
   \<not> distinct [2, 2, 2, 2, 2, 2 :: nat]"
  by code_simp

subsection \<open>Reproducibility\<close>

lemma softmax_differs: "softmax [[8, 11]] \<noteq> softmax [[9, 11]]"
proof
  assume "softmax [[8, 11]] = softmax [[9, 11]]"
  then have "1 / (exp (- 3) + 1) = 1 / (exp (- 2) + (1::real))"
    by (simp add: softmax_def softmax_row_def Let_def)
  then have "exp (- 3) = exp (- (2::real))"
    by (simp add: field_simps add_pos_pos)
  then show False by simp
qed

text \<open>
  Claim C2. The call that computes \<open>Y_test_prob3\<close> takes no seed for the draw of the
  negative examples: the draw reads the state of the global generator. For one training
  set, one classifier (a deterministic function of its training rows) and the fixed
  ratio 3, two states of the generator give two different score matrices, so equal
  inputs and equal classifier seeds do not determine the result.
\<close>

theorem Y_test_prob3_follows_generator:
  "map_sum id fst (Y_test_prob3 id [\<lparr>AnswerId = 1\<rparr>, \<lparr>AnswerId = 2\<rparr>, \<lparr>AnswerId = 2\<rparr>]
      [[1, 2, 3]] [[1]] [[1, 1]]
      \<lparr>fit = Pair, decision_function = Some (\<lambda>m x. sum_list (map sum_list (fst m))),
       predict_proba = (\<lambda>m x. [])\<rparr>)
     = Inr (softmax [[8, 11]]) \<and>
   map_sum id fst (Y_test_prob3 Suc [\<lparr>AnswerId = 1\<rparr>, \<lparr>AnswerId = 2\<rparr>, \<lparr>AnswerId = 2\<rparr>]
      [[1, 2, 3]] [[1]] [[1, 1]]
      \<lparr>fit = Pair, decision_function = Some (\<lambda>m x. sum_list (map sum_list (fst m))),
       predict_proba = (\<lambda>m x. [])\<rparr>)
     = Inr (softmax [[9, 11]]) \<and>
   softmax [[8, 11]] \<noteq> softmax [[9, 11]]"
proof -
  let ?clf = "\<lparr>fit = Pair, decision_function = Some (\<lambda>m x. sum_list (map sum_list (fst m))),
       predict_proba = (\<lambda>m x. [])\<rparr> :: (matrix \<times> int list) classifier"
  let ?T = "[\<lparr>AnswerId = 1\<rparr>, \<lparr>AnswerId = 2\<rparr>, \<lparr>AnswerId = 2\<rparr>]"
  have u: "np_unique (map AnswerId ?T) = [1, 2]" by code_simp
  have a: "map_sum id fst (ovr_loop ?clf (Some 3) [[1, 2, 3]] [[1]] [[1, 1]]
        (get_dummies (map AnswerId ?T)) (shape1 [[1 :: real]]) [0..<length [1, 2 :: int]] id)
      = Inr [[8], [11]]"
    by code_simp
  have b: "map_sum id fst (ovr_loop ?clf (Some 3) [[1, 2, 3]] [[1]] [[1, 1]]
        (get_dummies (map AnswerId ?T)) (shape1 [[1 :: real]]) [0..<length [1, 2 :: int]] Suc)
      = Inr [[9], [11]]"
    by code_simp
  from a obtain ga where
    la: "ovr_loop ?clf (Some 3) [[1, 2, 3]] [[1]] [[1, 1]]
        (get_dummies (map AnswerId ?T)) (shape1 [[1 :: real]]) [0..<length [1, 2 :: int]] id
      = Inr ([[8], [11]], ga)"
    by (auto dest: map_sum_fst_Inr)
  from b obtain gb where
    lb: "ovr_loop ?clf (Some 3) [[1, 2, 3]] [[1]] [[1, 1]]
        (get_dummies (map AnswerId ?T)) (shape1 [[1 :: real]]) [0..<length [1, 2 :: int]] Suc
      = Inr ([[9], [11]], gb)"
    by (auto dest: map_sum_fst_Inr)
  have ra: "map_sum id fst (Y_test_prob3 id ?T [[1, 2, 3]] [[1]] [[1, 1]] ?clf)
      = Inr (softmax [[8, 11]])"
    unfolding Y_test_prob3_def ovrClassifier_def Let_def u la by (simp add: shape1_def)
  have rb: "map_sum id fst (Y_test_prob3 Suc ?T [[1, 2, 3]] [[1]] [[1, 1]] ?clf)
      = Inr (softmax [[9, 11]])"
    unfolding Y_test_prob3_def ovrClassifier_def Let_def u lb by (simp add: shape1_def)
  from ra rb softmax_differs show ?thesis by blast
qed

subsection \<open>Class order\<close>

lemma length_softmax_row: "length (softmax_row xs) = length xs"
  by (simp add: softmax_row_def Let_def)

lemma np_unique_sorted: "sorted_wrt (<) (np_unique xs)"
  by (simp add: np_unique_def strict_sorted_iff)

lemma np_unique_set: "set (np_unique xs) = set xs"
  by (simp add: np_unique_def)

lemma np_dot_transpose:
  assumes rx: "\<forall>row\<in>set x. length row = shape1 x"
    and rW: "\<forall>row\<in>set W. length row = shape1 W"
    and len: "length x = length W"
  shows "np_dot (transpose x) W =
     Inr (map (\<lambda>q. map (\<lambda>c. \<Sum>t\<leftarrow>[0..<length W]. x ! t ! q * W ! t ! c) [0..<shape1 W])
            [0..<shape1 x])"
proof -
  have tx: "transpose x = map (\<lambda>q. map (\<lambda>row. row ! q) x) [0..<shape1 x]"
    by (rule transpose_rect [OF rx])
  have tW: "transpose W = map (\<lambda>c. map (\<lambda>row. row ! c) W) [0..<shape1 W]"
    by (rule transpose_rect [OF rW])
  have ok: "list_all (\<lambda>row. length row = length W) (transpose x)"
    unfolding tx using len by (simp add: list_all_iff)
  show ?thesis
    using ok unfolding np_dot_def
    by (simp add: tx tW dot_cols [OF len] o_def)
qed

lemma Y_test_prob1_Inr:
  assumes rx: "\<forall>row\<in>set x. length row = shape1 x"
    and rW: "\<forall>row\<in>set W. length row = shape1 W"
    and len: "length x = length W"
    and x: "x = normalizeTF testQ token2IdHash"
    and run: "Y_test_prob1 normalizeTF testQ token2IdHash W = Inr P"
  shows "P = map softmax_row
       (map (\<lambda>q. map (\<lambda>c. \<Sum>t\<leftarrow>[0..<length W]. x ! t ! q * W ! t ! c) [0..<shape1 W])
            [0..<shape1 x])"
  using run np_dot_transpose [OF rx rW len]
  by (simp add: Y_test_prob1_def x [symmetric] softmax_def beta_A_def)

lemma countMatrix_shape:
  "length (countMatrix frame vocabulary col keys) = length vocabulary"
  "\<forall>row\<in>set (countMatrix frame vocabulary col keys). length row = length keys"
  "vocabulary \<noteq> [] \<Longrightarrow> shape1 (countMatrix frame vocabulary col keys) = length keys"
  by (auto simp: countMatrix_def shape1_def split: list.splits)

lemma countMatrix_nth:
  "t < length vocabulary \<Longrightarrow> j < length keys \<Longrightarrow>
     countMatrix frame vocabulary col keys ! t ! j
       = real (\<Sum>q\<leftarrow>filter (\<lambda>q. col q = keys ! j) frame. count_list (Tokens q) (vocabulary ! t))"
  by (simp add: countMatrix_def)

lemma np_log_ratio_Inr:
  assumes "np_log_ratio A B = Inr W"
  shows "map length A = map length B \<and> length W = length A \<and>
     (\<forall>t<length A. length (W ! t) = length (A ! t) \<and>
        (\<forall>j<length (A ! t). W ! t ! j = ln (A ! t ! j / B ! t ! j)))"
proof -
  from assms have s: "map length A = map length B"
    and W: "W = map (\<lambda>(ra, rb). map (\<lambda>(a, b). ln (a / b)) (zip ra rb)) (zip A B)"
    by (auto simp: np_log_ratio_def split: if_splits)
  from s have l: "length A = length B" by (metis length_map)
  have lt: "length (A ! t) = length (B ! t)" if "t < length A" for t
    using that s l by (metis nth_map)
  show ?thesis using s l lt by (auto simp: W)
qed

lemma NBWeights_cell_Inr:
  assumes vocab: "token2IdHash \<noteq> []"
    and run: "NBWeights_cell featureWeights smoothIn smoothNotIn trainQ token2IdHash = Inr W"
  shows "length W = length token2IdHash \<and>
     (\<forall>row\<in>set W. length row = length (uniqueAnswerId trainQ)) \<and>
     (\<forall>t<length token2IdHash. \<forall>j<length (uniqueAnswerId trainQ).
        W ! t ! j =
          (let N_wA = countMatrix trainQ token2IdHash AnswerId (uniqueAnswerId trainQ);
               P_w = featureWeights N_wA (1 / 10000)
           in ln (smoothIn (map (\<lambda>row. row ! j) N_wA) P_w (1 / 10000) t
                  / smoothNotIn (map (\<lambda>row. sum_list row - row ! j) N_wA) P_w (1 / 10000) t)))"
proof -
  let ?u = "uniqueAnswerId trainQ"
  let ?N = "countMatrix trainQ token2IdHash AnswerId ?u"
  let ?Pw = "featureWeights ?N (1 / 10000)"
  let ?A = "wordProbabilityInAnswer smoothIn ?N ?Pw (1 / 10000)"
  let ?B = "wordProbabilityNotinAnswer smoothNotIn ?N ?Pw (1 / 10000)"
  from run have lr: "np_log_ratio ?A ?B = Inr W"
    by (simp add: NBWeights_cell_def Let_def)
  note L = np_log_ratio_Inr [OF lr]
  have lN: "length ?N = length token2IdHash" by (rule countMatrix_shape)
  have sN: "shape1 ?N = length ?u" by (rule countMatrix_shape(3) [OF vocab])
  have lA: "length ?A = length token2IdHash"
    by (simp add: wordProbabilityInAnswer_def lN)
  have rowA: "length (?A ! t) = length ?u" if "t < length token2IdHash" for t
    using that by (simp add: wordProbabilityInAnswer_def lN sN)
  have A: "?A ! t ! j = smoothIn (map (\<lambda>row. row ! j) ?N) ?Pw (1 / 10000) t"
    and B: "?B ! t ! j = smoothNotIn (map (\<lambda>row. sum_list row - row ! j) ?N) ?Pw (1 / 10000) t"
    if "t < length token2IdHash" "j < length ?u" for t j
    using that by (simp_all add: wordProbabilityInAnswer_def wordProbabilityNotinAnswer_def lN sN)
  from L lA have lW: "length W = length token2IdHash" by simp
  have rows: "\<forall>row\<in>set W. length row = length ?u"
  proof
    fix row assume "row \<in> set W"
    then obtain t where t: "t < length W" "row = W ! t" by (auto simp: in_set_conv_nth)
    with L lA lW rowA show "length row = length ?u" by simp
  qed
  have "W ! t ! j = ln (smoothIn (map (\<lambda>row. row ! j) ?N) ?Pw (1 / 10000) t
                  / smoothNotIn (map (\<lambda>row. sum_list row - row ! j) ?N) ?Pw (1 / 10000) t)"
    if t: "t < length token2IdHash" and j: "j < length ?u" for t j
  proof -
    from L lA t rowA [OF t] j have "W ! t ! j = ln (?A ! t ! j / ?B ! t ! j)" by simp
    then show ?thesis by (simp only: A [OF t j] B [OF t j])
  qed
  with lW rows show ?thesis by (simp add: Let_def)
qed

lemma Y_test_prob2_Inr:
  assumes three: "3 \<le> length (uniqueAnswerId trainQ)"
    and run: "Y_test_prob2 softmax1 svc tfidfTrain trainQ tfidfTest = Inr P"
  shows "P = map softmax_row
       (map (\<lambda>x. map (\<lambda>j. score svc
                  (fit_binary svc j (transpose tfidfTrain)
                     (map (\<lambda>q. AnswerId q = uniqueAnswerId trainQ ! j) trainQ)) x)
                [0..<length (uniqueAnswerId trainQ)])
            (transpose tfidfTest))"
proof -
  let ?u = "np_unique (map AnswerId trainQ)"
  from three have n: "\<not> length ?u < 2" "length ?u \<noteq> 2" by (simp_all add: uniqueAnswerId_def)
  from run obtain d where
    d: "svc_decision_function svc (transpose tfidfTrain) (map AnswerId trainQ) (transpose tfidfTest)
          = Inr d"
    and P: "(case d of Mat D \<Rightarrow> Inr (softmax D) | Vec v \<Rightarrow> softmax1 v) = Inr P"
    by (auto simp: Y_test_prob2_def bindE_Inr_iff)
  from d n have "d = Mat (map (\<lambda>x. map (\<lambda>j. score svc
                  (fit_binary svc j (transpose tfidfTrain)
                     (map (\<lambda>y. y = ?u ! j) (map AnswerId trainQ))) x)
                [0..<length ?u]) (transpose tfidfTest))"
    by (auto simp: svc_decision_function_def Let_def split: if_splits)
  with P show ?thesis
    by (simp add: softmax_def uniqueAnswerId_def o_def)
qed

lemma Y_test_prob_aggr_Inr:
  assumes "Y_test_prob_aggr P1 P2 P3 = Inr E"
  shows "map length P1 = map length P2 \<and> map length P2 = map length P3 \<and>
     length E = length P1 \<and>
     (\<forall>q<length P1. length (E ! q) = length (P1 ! q) \<and>
        (\<forall>j<length (P1 ! q). E ! q ! j = (P1 ! q ! j + P2 ! q ! j + P3 ! q ! j) / 3))"
proof -
  from assms have s12: "map length P1 = map length P2" and s23: "map length P2 = map length P3"
    and E: "E = map (\<lambda>(r1, r2, r3). map (\<lambda>(a, b, c). (a + b + c) / 3) (zip r1 (zip r2 r3)))
                  (zip P1 (zip P2 P3))"
    by (auto simp: Y_test_prob_aggr_def split: if_splits)
  from s12 s23 have l: "length P1 = length P2" "length P2 = length P3"
    by (metis length_map)+
  have lq: "length (P1 ! q) = length (P2 ! q)" "length (P2 ! q) = length (P3 ! q)"
    if "q < length P1" for q
    using that l map_length_nth [OF s12, of q] map_length_nth [OF s23, of q] by simp_all
  show ?thesis using s12 s23 l lq by (auto simp: E)
qed

lemma rank_returns:
  assumes srt: "\<And>xs. is_argsort xs (srt xs)"
    and rows: "length scores = length frame"
    and cols: "\<forall>row\<in>set scores. length row = length classes"
    and known: "\<forall>q\<in>set frame. AnswerId q \<in> set classes"
  shows "\<exists>ranked. rank srt frame scores classes = Inr ranked"
proof -
  have idx: "\<forall>row\<in>set scores. \<forall>j\<in>set (srt (map uminus row)). j < length classes"
  proof (intro ballI)
    fix row j assume "row \<in> set scores" "j \<in> set (srt (map uminus row))"
    with srt [of "map uminus row"] cols show "j < length classes"
      by (auto simp: is_argsort_def)
  qed
  from sorted_answers_ok [OF idx] obtain sa where sa: "sorted_answers srt classes scores = Inr sa"
    by blast
  note A = sorted_answers_Inr [OF sa]
  have "\<forall>z\<in>set (zip frame sa). AnswerId (fst z) \<in> set (snd z)"
  proof
    fix z assume "z \<in> set (zip frame sa)"
    then obtain i where i: "i < length frame" "i < length sa" "z = (frame ! i, sa ! i)"
      by (auto simp: set_zip)
    let ?p = "srt (map uminus (scores ! i))"
    from i A rows have s: "sa ! i = map (\<lambda>j. classes ! j) ?p"
      by (auto simp: take_idx_Inr_iff)
    from i rows cols have "length (scores ! i) = length classes" by simp
    with srt [of "map uminus (scores ! i)"] have "set ?p = {0..<length classes}"
      by (simp add: is_argsort_def)
    then have "set (sa ! i) = (\<lambda>j. classes ! j) ` {0..<length classes}" by (simp add: s)
    also have "\<dots> = set classes" by (metis list.set_map map_nth set_upt)
    finally show "AnswerId (fst z) \<in> set (snd z)" using i known by auto
  qed
  from rank_loop_ok [OF this] obtain rl where "rank_loop (zip frame sa) = Inr rl" by blast
  with sa A rows show ?thesis by (simp add: rank_def)
qed

lemma Y_test_prob3_classes:
  assumes rtr: "\<forall>row\<in>set x_wTrain. length row = shape1 x_wTrain"
    and rte: "\<forall>row\<in>set x_wTest. length row = shape1 x_wTest"
    and ltr': "length x_wTrain = length W"
    and lte': "length x_wTest = length W"
    and p3: "Y_test_prob3 g trainQ x_wTrain x_wTest W clf = Inr (P3, g')"
  shows "\<exists>D3. P3 = map softmax_row D3 \<and> length D3 = shape1 x_wTest \<and>
     (\<forall>q<shape1 x_wTest. length (D3 ! q) = length (uniqueAnswerId trainQ)) \<and>
     (\<forall>j<length (uniqueAnswerId trainQ). \<exists>X_train Y_train gi gi' negIdx.
        (let X_train_all =
               map (\<lambda>k. map (\<lambda>t. x_wTrain ! t ! k * W ! t ! j) [0..<length W])
                   [0..<shape1 x_wTrain];
             Y_train_all =
               map (\<lambda>q. if AnswerId q = uniqueAnswerId trainQ ! j then 1 else 0) trainQ;
             posIdx = filter (\<lambda>k. AnswerId (trainQ ! k) = uniqueAnswerId trainQ ! j)
                        [0..<length trainQ]
         in neg_sample 3 gi Y_train_all = Inr (negIdx, gi') \<and>
            length negIdx = 3 * length posIdx \<and>
            (\<forall>k\<in>set negIdx. k < length trainQ \<and>
               AnswerId (trainQ ! k) \<noteq> uniqueAnswerId trainQ ! j) \<and>
            X_train = map (\<lambda>k. X_train_all ! k) (posIdx @ negIdx) \<and>
            Y_train = replicate (length posIdx) 1 @ replicate (length negIdx) 0) \<and>
        (\<forall>q<shape1 x_wTest. D3 ! q ! j =
           (case decision_function clf of
              Some d \<Rightarrow> d (fit clf X_train Y_train)
                (map (\<lambda>t. x_wTest ! t ! q * W ! t ! j) [0..<length W])
            | None \<Rightarrow> predict_proba clf (fit clf X_train Y_train)
                (map (\<lambda>t. x_wTest ! t ! q * W ! t ! j) [0..<length W]) ! 1)))"
proof -
  let ?u = "uniqueAnswerId trainQ"
  let ?n = "length ?u"
  have u: "?u = np_unique (map AnswerId trainQ)" by (simp add: uniqueAnswerId_def)
  from ovrClassifier_columns [OF rtr rte ltr' lte' p3 [unfolded Y_test_prob3_def]]
  obtain D3 where P3: "P3 = map softmax_row D3" and lD3: "length D3 = shape1 x_wTest"
    and wD3: "\<forall>q<shape1 x_wTest. length (D3 ! q) = length (np_unique (map AnswerId trainQ))"
    and cols: "\<forall>i<length (np_unique (map AnswerId trainQ)). \<exists>X_train Y_train gi gi'.
       select_train (Some 3) gi
         (map (\<lambda>j. map (\<lambda>t. x_wTrain ! t ! j * W ! t ! i) [0..<length W])
              [0..<shape1 x_wTrain])
         (map (\<lambda>l. if l = np_unique (map AnswerId trainQ) ! i then 1 else 0)
            (map AnswerId trainQ))
         = Inr ((X_train, Y_train), gi') \<and>
       (\<forall>q<shape1 x_wTest. D3 ! q ! i =
          (case decision_function clf of
             Some d \<Rightarrow> d (fit clf X_train Y_train)
               (map (\<lambda>t. x_wTest ! t ! q * W ! t ! i) [0..<length W])
           | None \<Rightarrow> predict_proba clf (fit clf X_train Y_train)
               (map (\<lambda>t. x_wTest ! t ! q * W ! t ! i) [0..<length W]) ! 1))"
    by blast
  have forest: "\<exists>X_train Y_train gi gi' negIdx.
             (let X_train_all =
                    map (\<lambda>k. map (\<lambda>t. x_wTrain ! t ! k * W ! t ! j) [0..<length W])
                        [0..<shape1 x_wTrain];
                  Y_train_all = map (\<lambda>q. if AnswerId q = ?u ! j then 1 else 0) trainQ;
                  posIdx = filter (\<lambda>k. AnswerId (trainQ ! k) = ?u ! j) [0..<length trainQ]
              in neg_sample 3 gi Y_train_all = Inr (negIdx, gi') \<and>
                 length negIdx = 3 * length posIdx \<and>
                 (\<forall>k\<in>set negIdx. k < length trainQ \<and> AnswerId (trainQ ! k) \<noteq> ?u ! j) \<and>
                 X_train = map (\<lambda>k. X_train_all ! k) (posIdx @ negIdx) \<and>
                 Y_train = replicate (length posIdx) 1 @ replicate (length negIdx) 0) \<and>
             (\<forall>q<shape1 x_wTest. D3 ! q ! j =
                (case decision_function clf of
                   Some d \<Rightarrow> d (fit clf X_train Y_train)
                     (map (\<lambda>t. x_wTest ! t ! q * W ! t ! j) [0..<length W])
                 | None \<Rightarrow> predict_proba clf (fit clf X_train Y_train)
                     (map (\<lambda>t. x_wTest ! t ! q * W ! t ! j) [0..<length W]) ! 1))"
    if j: "j < ?n" for j
  proof -
    let ?c = "?u ! j"
    let ?X = "map (\<lambda>k. map (\<lambda>t. x_wTrain ! t ! k * W ! t ! j) [0..<length W])
                [0..<shape1 x_wTrain]"
    let ?pos = "filter (\<lambda>k. AnswerId (trainQ ! k) = ?c) [0..<length trainQ]"
    from cols j obtain X_train Y_train gi gi' where
      sel: "select_train (Some 3) gi ?X
              (map (\<lambda>l. if l = ?c then 1 else 0) (map AnswerId trainQ))
            = Inr ((X_train, Y_train), gi')"
      and sc: "\<forall>q<shape1 x_wTest. D3 ! q ! j =
          (case decision_function clf of
             Some d \<Rightarrow> d (fit clf X_train Y_train)
               (map (\<lambda>t. x_wTest ! t ! q * W ! t ! j) [0..<length W])
           | None \<Rightarrow> predict_proba clf (fit clf X_train Y_train)
               (map (\<lambda>t. x_wTest ! t ! q * W ! t ! j) [0..<length W]) ! 1)"
      unfolding u by blast
    have pos: "filter (\<lambda>k. map AnswerId trainQ ! k = ?c) [0..<length (map AnswerId trainQ)] = ?pos"
      by (auto intro!: filter_cong)
    have ys: "map (\<lambda>l. if l = ?c then 1 else 0) (map AnswerId trainQ)
            = map (\<lambda>q. if AnswerId q = ?c then (1::int) else 0) trainQ"
      by (simp add: o_def)
    let ?L = "map AnswerId trainQ"
    let ?rawpos = "filter (\<lambda>k. ?L ! k = ?c) [0..<length ?L]"
    from train_set_facts [OF sel, unfolded option.case] obtain negIdx where
      ns0: "neg_sample 3 gi (map (\<lambda>l. if l = ?c then 1 else 0) ?L) = Inr (negIdx, gi')"
      and ln0: "length negIdx = nat (3 * int (length ?rawpos))"
      and ng0: "\<forall>k\<in>set negIdx. k < length ?L \<and> ?L ! k \<noteq> ?c"
      and xt0: "X_train = map (\<lambda>k. ?X ! k) (?rawpos @ negIdx)"
      and yt0: "Y_train = replicate (length ?rawpos) 1 @ replicate (length negIdx) 0"
      by blast
    from ns0 have ns: "neg_sample 3 gi (map (\<lambda>q. if AnswerId q = ?c then 1 else 0) trainQ)
        = Inr (negIdx, gi')"
      unfolding ys .
    from ln0 have ln: "length negIdx = nat (3 * int (length ?pos))" unfolding pos .
    from ng0 have ng: "\<forall>k\<in>set negIdx. k < length trainQ \<and> AnswerId (trainQ ! k) \<noteq> ?c"
      by auto
    from xt0 have xt: "X_train = map (\<lambda>k. ?X ! k) (?pos @ negIdx)" unfolding pos .
    from yt0 have yt: "Y_train = replicate (length ?pos) 1 @ replicate (length negIdx) 0"
      unfolding pos .
    from ln have ln': "length negIdx = 3 * length ?pos" by simp
    from sc have sc': "\<forall>q<shape1 x_wTest. D3 ! q ! j =
          (case decision_function clf of
             Some d \<Rightarrow> d (fit clf X_train Y_train)
               (map (\<lambda>t. x_wTest ! t ! q * W ! t ! j) [0..<length W])
           | None \<Rightarrow> predict_proba clf (fit clf X_train Y_train)
               (map (\<lambda>t. x_wTest ! t ! q * W ! t ! j) [0..<length W]) ! 1)"
      by simp
    show ?thesis
      unfolding Let_def
      apply (rule exI [of _ X_train], rule exI [of _ Y_train])
      apply (rule exI [of _ gi], rule exI [of _ gi'], rule exI [of _ negIdx])
      apply (intro conjI)
           apply (rule ns)
          apply (rule ln')
         apply (rule ng)
        apply (rule xt)
       apply (rule yt)
      apply (rule sc')
      done
  qed
  from P3 lD3 wD3 forest show ?thesis unfolding u [symmetric] by blast
qed

text \<open>
  Claim C8. \<open>uniqueAnswerId\<close> lists the distinct answer ids of the training set in strictly
  ascending order, and position \<open>j\<close> of that list names column \<open>j\<close> everywhere:
  \<^item> the Naive Bayes weights of column \<open>j\<close> are computed from column \<open>j\<close> of the count matrix,
    which holds the token counts of the training questions of class \<open>uniqueAnswerId ! j\<close>,
    and column \<open>j\<close> of the Naive Bayes scores is the product of the test features with
    column \<open>j\<close> of the weights;
  \<^item> with three or more classes, column \<open>j\<close> of the support vector machine scores is the
    score of the two-class problem whose positive samples are the training questions of
    class \<open>uniqueAnswerId ! j\<close>;
  \<^item> column \<open>j\<close> of the random forest scores comes from the classifier fitted on the
    questions of class \<open>uniqueAnswerId ! j\<close> as positive examples and drawn questions of other
    classes as negative examples, with features weighted by column \<open>j\<close> of the weights;
  \<^item> the ensemble averages the three matrices position by position;
  \<^item> the evaluator reports position \<open>p\<close> of a score row as class \<open>uniqueAnswerId ! p\<close>.
  Each score matrix is the row-wise softmax of the matrix described.
\<close>

theorem class_order_shared:
  fixes trainQ :: "'a token_question_scheme list"
  shows
   "(sorted_wrt (<) (uniqueAnswerId trainQ) \<and>
     set (uniqueAnswerId trainQ) = AnswerId ` set trainQ) \<and>
    (token2IdHash \<noteq> [] \<and>
     NBWeights_cell featureWeights smoothIn smoothNotIn trainQ token2IdHash = Inr W \<longrightarrow>
       length W = length token2IdHash \<and>
       (\<forall>row\<in>set W. length row = length (uniqueAnswerId trainQ)) \<and>
       (\<forall>t<length token2IdHash. \<forall>j<length (uniqueAnswerId trainQ).
          W ! t ! j =
            (let N_wA = countMatrix trainQ token2IdHash AnswerId (uniqueAnswerId trainQ);
                 P_w = featureWeights N_wA (1 / 10000)
             in ln (smoothIn (map (\<lambda>row. row ! j) N_wA) P_w (1 / 10000) t
                    / smoothNotIn (map (\<lambda>row. sum_list row - row ! j) N_wA) P_w (1 / 10000) t)) \<and>
          countMatrix trainQ token2IdHash AnswerId (uniqueAnswerId trainQ) ! t ! j =
            real (\<Sum>q\<leftarrow>filter (\<lambda>q. AnswerId q = uniqueAnswerId trainQ ! j) trainQ.
                    count_list (Tokens q) (token2IdHash ! t)))) \<and>
    ((\<forall>row\<in>set x_wTest. length row = shape1 x_wTest) \<and>
     (\<forall>row\<in>set W. length row = shape1 W) \<and> length x_wTest = length W \<and>
     x_wTest = normalizeTF testQ token2IdHash \<and>
     Y_test_prob1 normalizeTF testQ token2IdHash W = Inr P1 \<longrightarrow>
       P1 = map softmax_row
              (map (\<lambda>q. map (\<lambda>j. \<Sum>t\<leftarrow>[0..<length W]. x_wTest ! t ! q * W ! t ! j)
                            [0..<shape1 W])
                   [0..<shape1 x_wTest])) \<and>
    (3 \<le> length (uniqueAnswerId trainQ) \<and>
     Y_test_prob2 softmax1 svc tfidfTrain trainQ tfidfTest = Inr P2 \<longrightarrow>
       P2 = map softmax_row
              (map (\<lambda>x. map (\<lambda>j. score svc
                         (fit_binary svc j (transpose tfidfTrain)
                            (map (\<lambda>q. AnswerId q = uniqueAnswerId trainQ ! j) trainQ)) x)
                       [0..<length (uniqueAnswerId trainQ)])
                   (transpose tfidfTest))) \<and>
    ((\<forall>row\<in>set x_wTrain. length row = shape1 x_wTrain) \<and>
     (\<forall>row\<in>set x_wTest. length row = shape1 x_wTest) \<and>
     length x_wTrain = length W \<and> length x_wTest = length W \<and>
     Y_test_prob3 g trainQ x_wTrain x_wTest W clf = Inr (P3, g') \<longrightarrow>
       (\<exists>D3. P3 = map softmax_row D3 \<and> length D3 = shape1 x_wTest \<and>
          (\<forall>q<shape1 x_wTest. length (D3 ! q) = length (uniqueAnswerId trainQ)) \<and>
          (\<forall>j<length (uniqueAnswerId trainQ). \<exists>X_train Y_train gi gi' negIdx.
             (let X_train_all =
                    map (\<lambda>k. map (\<lambda>t. x_wTrain ! t ! k * W ! t ! j) [0..<length W])
                        [0..<shape1 x_wTrain];
                  Y_train_all =
                    map (\<lambda>q. if AnswerId q = uniqueAnswerId trainQ ! j then 1 else 0) trainQ;
                  posIdx = filter (\<lambda>k. AnswerId (trainQ ! k) = uniqueAnswerId trainQ ! j)
                             [0..<length trainQ]
              in neg_sample 3 gi Y_train_all = Inr (negIdx, gi') \<and>
                 length negIdx = 3 * length posIdx \<and>
                 (\<forall>k\<in>set negIdx. k < length trainQ \<and>
                    AnswerId (trainQ ! k) \<noteq> uniqueAnswerId trainQ ! j) \<and>
                 X_train = map (\<lambda>k. X_train_all ! k) (posIdx @ negIdx) \<and>
                 Y_train = replicate (length posIdx) 1 @ replicate (length negIdx) 0) \<and>
             (\<forall>q<shape1 x_wTest. D3 ! q ! j =
                (case decision_function clf of
                   Some d \<Rightarrow> d (fit clf X_train Y_train)
                     (map (\<lambda>t. x_wTest ! t ! q * W ! t ! j) [0..<length W])
                 | None \<Rightarrow> predict_proba clf (fit clf X_train Y_train)
                     (map (\<lambda>t. x_wTest ! t ! q * W ! t ! j) [0..<length W]) ! 1))))) \<and>
    (Y_test_prob_aggr P1 P2 P3 = Inr E \<longrightarrow>
       length E = length P1 \<and>
       (\<forall>q<length P1. length (E ! q) = length (P1 ! q) \<and>
          (\<forall>j<length (P1 ! q). E ! q ! j = (P1 ! q ! j + P2 ! q ! j + P3 ! q ! j) / 3))) \<and>
    (rank srt frame E (uniqueAnswerId trainQ) = Inr ranked \<longrightarrow>
       length ranked = length frame \<and>
       (\<forall>i<length frame.
          SortedAnswers (ranked ! i)
            = map (\<lambda>p. uniqueAnswerId trainQ ! p) (srt (map uminus (E ! i)))))"
proof (intro conjI impI; (elim conjE)?)
  have u: "uniqueAnswerId trainQ = np_unique (map AnswerId trainQ)"
    by (simp add: uniqueAnswerId_def)
  show "sorted_wrt (<) (uniqueAnswerId trainQ)" unfolding u by (rule np_unique_sorted)
  show "set (uniqueAnswerId trainQ) = AnswerId ` set trainQ"
    unfolding u by (simp add: np_unique_set)
next
  assume v: "token2IdHash \<noteq> []"
    and W: "NBWeights_cell featureWeights smoothIn smoothNotIn trainQ token2IdHash = Inr W"
  note NB = NBWeights_cell_Inr [OF v W]
  from NB show "length W = length token2IdHash" by blast
  from NB show "\<forall>row\<in>set W. length row = length (uniqueAnswerId trainQ)" by blast
  from NB show "\<forall>t<length token2IdHash. \<forall>j<length (uniqueAnswerId trainQ).
          W ! t ! j =
            (let N_wA = countMatrix trainQ token2IdHash AnswerId (uniqueAnswerId trainQ);
                 P_w = featureWeights N_wA (1 / 10000)
             in ln (smoothIn (map (\<lambda>row. row ! j) N_wA) P_w (1 / 10000) t
                    / smoothNotIn (map (\<lambda>row. sum_list row - row ! j) N_wA) P_w (1 / 10000) t)) \<and>
          countMatrix trainQ token2IdHash AnswerId (uniqueAnswerId trainQ) ! t ! j =
            real (\<Sum>q\<leftarrow>filter (\<lambda>q. AnswerId q = uniqueAnswerId trainQ ! j) trainQ.
                    count_list (Tokens q) (token2IdHash ! t))"
    by (simp add: countMatrix_nth)
next
  assume "\<forall>row\<in>set x_wTest. length row = shape1 x_wTest"
    "\<forall>row\<in>set W. length row = shape1 W" "length x_wTest = length W"
    "x_wTest = normalizeTF testQ token2IdHash"
    "Y_test_prob1 normalizeTF testQ token2IdHash W = Inr P1"
  then show "P1 = map softmax_row
              (map (\<lambda>q. map (\<lambda>j. \<Sum>t\<leftarrow>[0..<length W]. x_wTest ! t ! q * W ! t ! j)
                            [0..<shape1 W])
                   [0..<shape1 x_wTest])"
    by (rule Y_test_prob1_Inr)
next
  assume "3 \<le> length (uniqueAnswerId trainQ)"
    "Y_test_prob2 softmax1 svc tfidfTrain trainQ tfidfTest = Inr P2"
  then show "P2 = map softmax_row
              (map (\<lambda>x. map (\<lambda>j. score svc
                         (fit_binary svc j (transpose tfidfTrain)
                            (map (\<lambda>q. AnswerId q = uniqueAnswerId trainQ ! j) trainQ)) x)
                       [0..<length (uniqueAnswerId trainQ)])
                   (transpose tfidfTest))"
    by (rule Y_test_prob2_Inr)
next
  assume "\<forall>row\<in>set x_wTrain. length row = shape1 x_wTrain"
    "\<forall>row\<in>set x_wTest. length row = shape1 x_wTest"
    "length x_wTrain = length W" "length x_wTest = length W"
    "Y_test_prob3 g trainQ x_wTrain x_wTest W clf = Inr (P3, g')"
  then show "\<exists>D3. P3 = map softmax_row D3 \<and> length D3 = shape1 x_wTest \<and>
          (\<forall>q<shape1 x_wTest. length (D3 ! q) = length (uniqueAnswerId trainQ)) \<and>
          (\<forall>j<length (uniqueAnswerId trainQ). \<exists>X_train Y_train gi gi' negIdx.
             (let X_train_all =
                    map (\<lambda>k. map (\<lambda>t. x_wTrain ! t ! k * W ! t ! j) [0..<length W])
                        [0..<shape1 x_wTrain];
                  Y_train_all =
                    map (\<lambda>q. if AnswerId q = uniqueAnswerId trainQ ! j then 1 else 0) trainQ;
                  posIdx = filter (\<lambda>k. AnswerId (trainQ ! k) = uniqueAnswerId trainQ ! j)
                             [0..<length trainQ]
              in neg_sample 3 gi Y_train_all = Inr (negIdx, gi') \<and>
                 length negIdx = 3 * length posIdx \<and>
                 (\<forall>k\<in>set negIdx. k < length trainQ \<and>
                    AnswerId (trainQ ! k) \<noteq> uniqueAnswerId trainQ ! j) \<and>
                 X_train = map (\<lambda>k. X_train_all ! k) (posIdx @ negIdx) \<and>
                 Y_train = replicate (length posIdx) 1 @ replicate (length negIdx) 0) \<and>
             (\<forall>q<shape1 x_wTest. D3 ! q ! j =
                (case decision_function clf of
                   Some d \<Rightarrow> d (fit clf X_train Y_train)
                     (map (\<lambda>t. x_wTest ! t ! q * W ! t ! j) [0..<length W])
                 | None \<Rightarrow> predict_proba clf (fit clf X_train Y_train)
                     (map (\<lambda>t. x_wTest ! t ! q * W ! t ! j) [0..<length W]) ! 1)))"
    by (rule Y_test_prob3_classes)
next
  assume e: "Y_test_prob_aggr P1 P2 P3 = Inr E"
  note A = Y_test_prob_aggr_Inr [OF e]
  from A show "length E = length P1" by blast
  from A show "\<forall>q<length P1. length (E ! q) = length (P1 ! q) \<and>
          (\<forall>j<length (P1 ! q). E ! q ! j = (P1 ! q ! j + P2 ! q ! j + P3 ! q ! j) / 3)"
    by blast
next
  assume r: "rank srt frame E (uniqueAnswerId trainQ) = Inr ranked"
  note R = rank_Inr [OF r]
  from R show "length ranked = length frame" by blast
  from R show "\<forall>i<length frame.
          SortedAnswers (ranked ! i)
            = map (\<lambda>p. uniqueAnswerId trainQ ! p) (srt (map uminus (E ! i)))"
    by (auto simp: take_idx_Inr_iff)
qed

theorem class_order_shared_witness:
  "\<exists>W P1 P2 P3 g' E ranked.
     NBWeights_cell (\<lambda>N a. []) (\<lambda>c P b t. exp (c ! t)) (\<lambda>c P b t. 1)
        [\<lparr>AnswerId = 7, Tokens = [''a'']\<rparr>, \<lparr>AnswerId = 5, Tokens = [''b'']\<rparr>,
         \<lparr>AnswerId = 9, Tokens = [''a'', ''b'']\<rparr>] [''a'', ''b''] = Inr W \<and>
     W = [[0, 1, 1], [1, 0, 1]] \<and>
     Y_test_prob1 (\<lambda>(f :: question list) (h :: string list). [[1], [0]])
        [\<lparr>AnswerId = 7\<rparr>] [''a'', ''b''] W = Inr P1 \<and>
     P1 = softmax [[0, 1, 1]] \<and>
     Y_test_prob2 (\<lambda>v. Inl ValueError)
        \<lparr>fit_binary = (\<lambda>j X ys. (j, X, ys)),
         score = (\<lambda>m x. real (fst m) + sum_list x + real (length (filter id (snd (snd m)))))\<rparr>
        [[1, 0, 1], [0, 1, 1]]
        [\<lparr>AnswerId = 7, Tokens = [''a'']\<rparr>, \<lparr>AnswerId = 5, Tokens = [''b'']\<rparr>,
         \<lparr>AnswerId = 9, Tokens = [''a'', ''b'']\<rparr>] [[1], [0]] = Inr P2 \<and>
     P2 = softmax [[2, 3, 4]] \<and>
     Y_test_prob3 id
        [\<lparr>AnswerId = 7, Tokens = [''a'']\<rparr>, \<lparr>AnswerId = 5, Tokens = [''b'']\<rparr>,
         \<lparr>AnswerId = 9, Tokens = [''a'', ''b'']\<rparr>]
        [[1, 0, 1/2], [0, 1, 1/2]] [[1], [0]] W
        \<lparr>fit = Pair, decision_function = None,
         predict_proba = (\<lambda>m x. [0, 10 * sum_list (map sum_list (fst m))
                                     + 100 * real_of_int (sum_list (snd m)) + sum_list x])\<rparr>
       = Inr (P3, g') \<and>
     P3 = softmax [[115, 121, 141]] \<and>
     Y_test_prob_aggr P1 P2 P3 = Inr E \<and>
     rank argsort_stable (map question.truncate [\<lparr>AnswerId = 7\<rparr>]) E
        (uniqueAnswerId [\<lparr>AnswerId = 7, Tokens = [''a'']\<rparr>, \<lparr>AnswerId = 5, Tokens = [''b'']\<rparr>,
           \<lparr>AnswerId = 9, Tokens = [''a'', ''b'']\<rparr>]) = Inr ranked \<and>
     (\<exists>D3. P3 = map softmax_row D3 \<and> length D3 = 1) \<and>
     E ! 0 ! 1 = (P1 ! 0 ! 1 + P2 ! 0 ! 1 + P3 ! 0 ! 1) / 3 \<and>
     SortedAnswers (ranked ! 0) = map (\<lambda>p. [5, 7, 9] ! p) (argsort_stable (map uminus (E ! 0)))"
proof -
  let ?T = "[\<lparr>AnswerId = 7, Tokens = [''a'']\<rparr>, \<lparr>AnswerId = 5, Tokens = [''b'']\<rparr>,
         \<lparr>AnswerId = 9, Tokens = [''a'', ''b'']\<rparr>]"
  let ?Q = "[\<lparr>AnswerId = 7\<rparr>]"
  let ?v = "[''a'', ''b'']"
  let ?fw = "\<lambda>(N :: matrix) (a :: real). [] :: real list"
  let ?si = "\<lambda>(c :: real list) (P :: real list) (b :: real) t. exp (c ! t)"
  let ?sn = "\<lambda>(c :: real list) (P :: real list) (b :: real) (t :: nat). 1 :: real"
  let ?nt = "\<lambda>(f :: question list) (h :: string list). [[1], [0 :: real]]"
  let ?svc = "\<lparr>fit_binary = (\<lambda>j X ys. (j, X, ys)),
         score = (\<lambda>m x. real (fst m) + sum_list x + real (length (filter id (snd (snd m)))))\<rparr>
         :: (nat \<times> matrix \<times> bool list) linear_svc"
  let ?clf = "\<lparr>fit = Pair, decision_function = None,
         predict_proba = (\<lambda>m x. [0, 10 * sum_list (map sum_list (fst m))
                                     + 100 * real_of_int (sum_list (snd m)) + sum_list x :: real])\<rparr>
         :: (matrix \<times> int list) classifier"
  let ?W = "[[0, 1, 1], [1, 0, 1 :: real]]"
  let ?xtr = "[[1, 0, 1/2], [0, 1, 1/2 :: real]]"
  let ?xte = "[[1], [0 :: real]]"
  have u: "uniqueAnswerId ?T = [5, 7, 9]" by code_simp
  have nu: "np_unique (map AnswerId ?T) = [5, 7, 9]" by code_simp
  have n1: "countMatrix ?T ?v AnswerId [5, 7, 9] = ?W" by code_simp
  have n2: "wordProbabilityInAnswer ?si ?W P beta
      = [[exp 0, exp 1, exp 1], [exp 1, exp 0, exp 1]]" for P beta
    by (simp add: wordProbabilityInAnswer_def shape1_def upt_rec)
  have n3: "wordProbabilityNotinAnswer ?sn ?W P beta = [[1, 1, 1], [1, 1, 1]]" for P beta
    by (simp add: wordProbabilityNotinAnswer_def shape1_def upt_rec)
  have n4: "np_log_ratio [[exp 0, exp 1, exp 1], [exp 1, exp 0, exp 1]] [[1, 1, 1], [1, 1, 1]]
      = Inr ?W"
    by (simp add: np_log_ratio_def)
  have W: "NBWeights_cell ?fw ?si ?sn ?T ?v = Inr ?W"
    unfolding NBWeights_cell_def Let_def u n1 n2 n3 n4 ..
  have p1: "Y_test_prob1 ?nt ?Q ?v ?W = Inr (softmax [[0, 1, 1]])"
    by (simp add: Y_test_prob1_def np_dot_def beta_A_def)
  have "svc_decision_function ?svc (transpose [[1, 0, 1], [0, 1, 1]]) (map AnswerId ?T)
      (transpose ?xte) = Inr (Mat [[2, 3, 4]])"
    by code_simp
  then have p2: "Y_test_prob2 (\<lambda>v. Inl ValueError) ?svc [[1, 0, 1], [0, 1, 1]] ?T ?xte
      = Inr (softmax [[2, 3, 4]])"
    by (simp add: Y_test_prob2_def)
  have "map_sum id fst (ovr_loop ?clf (Some 3) ?xtr ?xte ?W (get_dummies (map AnswerId ?T))
        (shape1 ?xte) [0..<length [5, 7, 9 :: int]] id) = Inr [[115], [121], [141]]"
    by code_simp
  then obtain g' where
    loop: "ovr_loop ?clf (Some 3) ?xtr ?xte ?W (get_dummies (map AnswerId ?T))
        (shape1 ?xte) [0..<length [5, 7, 9 :: int]] id = Inr ([[115], [121], [141]], g')"
    by (auto dest: map_sum_fst_Inr)
  have p3: "Y_test_prob3 id ?T ?xtr ?xte ?W ?clf = Inr (softmax [[115, 121, 141]], g')"
    unfolding Y_test_prob3_def ovrClassifier_def Let_def nu loop by (simp add: shape1_def)
  define E where "E = [map (\<lambda>(a, b, c). (a + b + c) / 3)
      (zip (softmax_row [0, 1, 1]) (zip (softmax_row [2, 3, 4]) (softmax_row [115, 121, 141])))]"
  have e: "Y_test_prob_aggr (softmax [[0, 1, 1]]) (softmax [[2, 3, 4]]) (softmax [[115, 121, 141]])
      = Inr E"
    by (simp add: Y_test_prob_aggr_def softmax_def length_softmax_row E_def)
  have "\<exists>ranked. rank argsort_stable (map question.truncate ?Q) E [5, 7, 9] = Inr ranked"
    by (rule rank_returns [OF argsort_stable_ok])
       (simp_all add: E_def length_softmax_row question.truncate_def)
  then obtain ranked where r: "rank argsort_stable (map question.truncate ?Q) E (uniqueAnswerId ?T)
      = Inr ranked"
    unfolding u by blast
  have vocab: "?v \<noteq> []" by simp
  have three: "3 \<le> length (uniqueAnswerId ?T)" by (simp add: u)
  have xte: "?xte = ?nt ?Q ?v" by simp
  have rte: "\<forall>row\<in>set ?xte. length row = shape1 ?xte" by (simp add: shape1_def)
  have lte: "length ?xte = length ?v" by simp
  have rtr: "\<forall>row\<in>set ?xtr. length row = shape1 ?xtr" by (simp add: shape1_def)
  have ltr: "length ?xtr = length ?v" by simp
  have rW: "\<forall>row\<in>set ?W. length row = shape1 ?W" by (simp add: shape1_def)
  note C = class_order_shared [where trainQ = ?T and token2IdHash = ?v
      and featureWeights = ?fw and smoothIn = ?si and smoothNotIn = ?sn and W = ?W
      and x_wTest = ?xte and normalizeTF = ?nt and testQ = ?Q
      and ?P1.0 = "softmax [[0, 1, 1]]" and ?softmax1.0 = "\<lambda>v. Inl ValueError" and svc = ?svc
      and tfidfTrain = "[[1, 0, 1], [0, 1, 1]]" and tfidfTest = ?xte
      and ?P2.0 = "softmax [[2, 3, 4]]" and x_wTrain = ?xtr and g = id and clf = ?clf
      and ?P3.0 = "softmax [[115, 121, 141]]" and g' = g' and E = E
      and srt = argsort_stable and frame = "map question.truncate ?Q" and ranked = ranked]
  have lW: "length ?xtr = length ?W" "length ?xte = length ?W" by simp_all
  note RF = C [THEN conjunct2, THEN conjunct2, THEN conjunct2, THEN conjunct2, THEN conjunct1,
      THEN mp, OF conjI [OF rtr conjI [OF rte conjI [OF lW(1) conjI [OF lW(2) p3]]]]]
  from RF have d3: "\<exists>D3. softmax [[115, 121, 141]] = map softmax_row D3 \<and> length D3 = 1"
    by (auto simp: shape1_def)
  from C e have "\<forall>q<length (softmax [[0, 1, 1]]).
      \<forall>j<length (softmax [[0, 1, 1]] ! q).
        E ! q ! j = (softmax [[0, 1, 1]] ! q ! j + softmax [[2, 3, 4]] ! q ! j
                       + softmax [[115, 121, 141]] ! q ! j) / 3"
    by blast
  from this [rule_format, of 0 1]
  have m: "E ! 0 ! 1 = (softmax [[0, 1, 1]] ! 0 ! 1 + softmax [[2, 3, 4]] ! 0 ! 1
                       + softmax [[115, 121, 141]] ! 0 ! 1) / 3"
    by (simp add: softmax_def length_softmax_row)
  from C r have "\<forall>i<length (map question.truncate ?Q). SortedAnswers (ranked ! i)
      = map (\<lambda>p. uniqueAnswerId ?T ! p) (argsort_stable (map uminus (E ! i)))"
    by blast
  from this [rule_format, of 0]
  have s: "SortedAnswers (ranked ! 0) = map (\<lambda>p. [5, 7, 9] ! p) (argsort_stable (map uminus (E ! 0)))"
    by (simp add: u)
  from W p1 p2 p3 e r d3 m s show ?thesis by blast
qed

end
